theory Spec2Isabelle
  imports Complex_Main "HOL-Library.Char_ord" "HOL-Library.List_Lexorder"
begin

section \<open>Daily-log reconciliation of the eight-100 service layer\<close>

text \<open>
  The service layer (\<^verbatim>\<open>pocketbase-services\<close>) talks to a remote PocketBase store.
  Its functions are embedded as HOL functions over an explicit environment:
  the authentication store, the state of the remote store, the list of requests
  sent to it, the delays awaited and the warnings printed.
\<close>

subsection \<open>Data model\<close>

text \<open>
  A JavaScript \<^verbatim>\<open>number\<close>: a finite value, \<^verbatim>\<open>NaN\<close> or one of the infinities. The
  service layer only stores, tests and forwards numbers, it never computes with
  them; the finite values are taken as reals.
\<close>

datatype js_number = Finite real | NaN | PosInfinity | NegInfinity

text \<open>
  A plain JavaScript object (\<^verbatim>\<open>Partial<Task>\<close>, \<^verbatim>\<open>Partial<DailyLog>\<close>, \<^verbatim>\<open>cleanData\<close>,
  \<^verbatim>\<open>logData\<close>): its keys in insertion order. Reading a missing key gives
  \<^verbatim>\<open>undefined\<close>.
\<close>

datatype jsval = JUndefined | JNull | JBool bool | JNum js_number | JStr string

type_synonym fields = "(string \<times> jsval) list"

definition get_prop :: "fields \<Rightarrow> string \<Rightarrow> jsval" where
  "get_prop obj k = (case map_of obj k of None \<Rightarrow> JUndefined | Some v \<Rightarrow> v)"

text \<open>\<^verbatim>\<open>obj.k = v\<close>: replaces the value of an existing key, appends a new key.\<close>

fun set_prop :: "fields \<Rightarrow> string \<Rightarrow> jsval \<Rightarrow> fields" where
  "set_prop [] k v = [(k, v)]"
| "set_prop ((k', v') # obj) k v =
     (if k' = k then (k, v) # obj else (k', v') # set_prop obj k v)"

datatype TaskType = Daily | Goal

datatype DailyMode = Checklist | Number

record Task =
  task_id :: string
  task_name :: string
  task_type :: TaskType
  task_daily_mode :: "DailyMode option"
  task_target :: "js_number option"
  task_unit :: "string option"
  task_user :: string
  task_created :: string
  task_updated :: string
  task_description :: "string option"
  task_tag :: "string option"

record DailyLog =
  log_id :: string
  log_task :: string
  log_date :: string
  log_value_bool :: "bool option"
  log_value_number :: "js_number option"
  log_note :: "string option"
  log_user :: string
  log_created :: string
  log_updated :: string

record GoalProgress =
  gp_id :: string
  gp_task :: string
  gp_value :: js_number
  gp_date :: string
  gp_user :: string
  gp_created :: string
  gp_updated :: string

subsection \<open>Strings\<close>

text \<open>\<^verbatim>\<open>s.includes(sub)\<close>: \<open>sub\<close> occurs in \<open>s\<close> as a contiguous substring.\<close>

fun starts_with :: "string \<Rightarrow> string \<Rightarrow> bool" where
  "starts_with s [] = True"
| "starts_with [] (c # sub) = False"
| "starts_with (d # s) (c # sub) = (d = c \<and> starts_with s sub)"

fun str_includes :: "string \<Rightarrow> string \<Rightarrow> bool" where
  "str_includes [] sub = (sub = [])"
| "str_includes (c # s) sub = (starts_with (c # s) sub \<or> str_includes s sub)"

text \<open>\<^verbatim>\<open>s.toLowerCase()\<close> on the ASCII letters (the substrings looked for are ASCII).\<close>

definition lower_char :: "char \<Rightarrow> char" where
  "lower_char c =
     (let n = (of_char c :: nat) in if 65 \<le> n \<and> n \<le> 90 then char_of (n + 32) else c)"

definition toLowerCase :: "string \<Rightarrow> string" where
  "toLowerCase s = map lower_char s"

text \<open>\<^verbatim>\<open>parts.join(sep)\<close>.\<close>

fun join :: "string \<Rightarrow> string list \<Rightarrow> string" where
  "join sep [] = []"
| "join sep [p] = p"
| "join sep (p # q # ps) = p @ sep @ join sep (q # ps)"

subsection \<open>Errors\<close>

text \<open>
  What the remote store's client throws, as far as the service layer reads it:
  \<^verbatim>\<open>error.status\<close>, \<^verbatim>\<open>error.message\<close> (empty when absent), the text \<^verbatim>\<open>String(error)\<close>
  that a template string prints, and the two payload objects \<^verbatim>\<open>error.response.data\<close>
  and \<^verbatim>\<open>error.data\<close>, each with its \<^verbatim>\<open>message\<close> and its \<^verbatim>\<open>data\<close>. A payload's
  \<^verbatim>\<open>data\<close> is a string or an object whose values are strings or field errors
  \<^verbatim>\<open>{code, message}\<close>.
\<close>

record field_error =
  fe_code :: string
  fe_message :: string

datatype data_value = DStr string | DObj field_error

datatype error_data = DataString string | DataObject "(string \<times> data_value) list"

record payload =
  p_message :: string
  p_data :: "error_data option"

record pb_error =
  err_status :: nat
  err_message :: string
  err_string :: string
  err_response_data :: "payload option"
  err_data :: "payload option"

text \<open>
  What a service function throws: \<^verbatim>\<open>new Error(msg)\<close>, the store's error thrown on
  (\<^verbatim>\<open>throw error\<close>), or the \<^verbatim>\<open>RangeError\<close> of \<^verbatim>\<open>toISOString()\<close> on an invalid date.
\<close>

datatype thrown = Error string | StoreError pb_error | RangeError

fun thrown_message :: "thrown \<Rightarrow> string" where
  "thrown_message (Error m) = m"
| "thrown_message (StoreError e) = err_message e"
| "thrown_message RangeError = ''Invalid time value''"

fun thrown_status :: "thrown \<Rightarrow> nat option" where
  "thrown_status (StoreError e) = Some (err_status e)"
| "thrown_status _ = None"

text \<open>\<^verbatim>\<open>error.message && error.message.includes('autocancelled')\<close>\<close>

definition autocancelled :: "string \<Rightarrow> bool" where
  "autocancelled msg = str_includes msg ''autocancelled''"

text \<open>\<^verbatim>\<open>${error.message || error}\<close>\<close>

definition message_or_error :: "pb_error \<Rightarrow> string" where
  "message_or_error e = (if err_message e \<noteq> [] then err_message e else err_string e)"

text \<open>\<^verbatim>\<open>${error.data?.message || error.message || error}\<close>\<close>

definition data_message_or_error :: "pb_error \<Rightarrow> string" where
  "data_message_or_error e =
     (case err_data e of
        Some p \<Rightarrow> if p_message p \<noteq> [] then p_message p else message_or_error e
      | None \<Rightarrow> message_or_error e)"

text \<open>Truthiness of a payload's \<^verbatim>\<open>data\<close>: an object is truthy, a string when not empty.\<close>

fun truthy_data :: "error_data option \<Rightarrow> bool" where
  "truthy_data None = False"
| "truthy_data (Some (DataString s)) = (s \<noteq> [])"
| "truthy_data (Some (DataObject d)) = True"

text \<open>
  The payload object itself, read as error data: its \<^verbatim>\<open>message\<close> key when there is
  one (its \<^verbatim>\<open>data\<close> is falsy where this is used).
\<close>

definition payload_object :: "payload \<Rightarrow> error_data" where
  "payload_object p =
     DataObject (if p_message p \<noteq> [] then [(''message'', DStr (p_message p))] else [])"

text \<open>
  \<^verbatim>\<open>error?.response?.data?.data || error?.data?.data || error?.data\<close>
\<close>

definition errorData_of :: "thrown \<Rightarrow> error_data option" where
  "errorData_of t =
     (case t of
        StoreError e \<Rightarrow>
          (let first = (case err_response_data e of Some p \<Rightarrow> p_data p | None \<Rightarrow> None) in
           if truthy_data first then first
           else (case err_data e of
                   Some p \<Rightarrow> if truthy_data (p_data p) then p_data p else Some (payload_object p)
                 | None \<Rightarrow> None))
      | _ \<Rightarrow> None)"

text \<open>
  \<^verbatim>\<open>error?.response?.data?.message || error?.data?.message || error?.message\<close>
  (empty when all are absent).
\<close>

definition errorMessage_of :: "thrown \<Rightarrow> string" where
  "errorMessage_of t =
     (case t of
        StoreError e \<Rightarrow>
          (let m1 = (case err_response_data e of Some p \<Rightarrow> p_message p | None \<Rightarrow> []);
               m2 = (case err_data e of Some p \<Rightarrow> p_message p | None \<Rightarrow> [])
           in if m1 \<noteq> [] then m1 else if m2 \<noteq> [] then m2 else err_message e)
      | _ \<Rightarrow> thrown_message t)"

text \<open>\<^verbatim>\<open>errorData.k?.code === 'validation_not_unique'\<close>\<close>

fun field_not_unique :: "error_data \<Rightarrow> string \<Rightarrow> bool" where
  "field_not_unique (DataString s) k = False"
| "field_not_unique (DataObject d) k =
     (case map_of d k of
        Some (DObj fe) \<Rightarrow> fe_code fe = ''validation_not_unique''
      | _ \<Rightarrow> False)"

text \<open>
  \<^verbatim>\<open>
  errorData.date?.code === 'validation_not_unique' ||
  errorData.task?.code === 'validation_not_unique' ||
  errorData.user?.code === 'validation_not_unique'
  \<close>
\<close>

definition key_not_unique :: "error_data \<Rightarrow> bool" where
  "key_not_unique d =
     (field_not_unique d ''date'' \<or> field_not_unique d ''task'' \<or> field_not_unique d ''user'')"

text \<open>
  \<^verbatim>\<open>
  typeof errorData === 'object' && Object.values(errorData).some((v: any) =>
    v?.code === 'validation_not_unique' || v?.message?.includes('unique'))
  \<close>
\<close>

fun value_not_unique :: "data_value \<Rightarrow> bool" where
  "value_not_unique (DStr s) = False"
| "value_not_unique (DObj fe) =
     (fe_code fe = ''validation_not_unique'' \<or> str_includes (fe_message fe) ''unique'')"

fun some_value_not_unique :: "error_data \<Rightarrow> bool" where
  "some_value_not_unique (DataString s) = False"
| "some_value_not_unique (DataObject d) = list_ex (\<lambda>(k, v). value_not_unique v) d"

subsection \<open>Date Normalizer\<close>


text \<open>
  \<^verbatim>\<open>
  export function normalizeDate(date: string): string {
    if (date.includes('T')) {
      return date.split('T')[0];
    }
    return date;
  }
  \<close>
  \<^verbatim>\<open>date.split('T')[0]\<close> is the part of the string before its first \<^verbatim>\<open>T\<close>.
\<close>

definition normalizeDate :: "string \<Rightarrow> string" where
  "normalizeDate date =
     (if CHR ''T'' \<in> set date then takeWhile (\<lambda>c. c \<noteq> CHR ''T'') date else date)"







subsection \<open>The remote store and the environment\<close>

text \<open>
  A filter is the conjunction the code writes as a string, for example
  \<^verbatim>\<open>user = "u" && task = "t" && date >= "d" && date < "e"\<close>; \<open>filter_string\<close> gives
  the string back.
\<close>

datatype cond = Eq string string | Ge string string | Lt string string

fun cond_string :: "cond \<Rightarrow> string" where
  "cond_string (Eq f v) = f @ '' = \"'' @ v @ ''\"''"
| "cond_string (Ge f v) = f @ '' >= \"'' @ v @ ''\"''"
| "cond_string (Lt f v) = f @ '' < \"'' @ v @ ''\"''"

definition filter_string :: "cond list \<Rightarrow> string" where
  "filter_string cs = join '' && '' (map cond_string cs)"

text \<open>
  A request to the store: \<^verbatim>\<open>pb.collection(c).getList(page, perPage, {filter, sort})\<close>
  (an empty sort when none is given), \<^verbatim>\<open>create(data)\<close>, \<^verbatim>\<open>update(id, data)\<close>,
  \<^verbatim>\<open>delete(id)\<close>.
\<close>

datatype request =
    GetList string nat nat "cond list" string
  | Create string fields
  | Update string string fields
  | Delete string string

text \<open>
  \<^verbatim>\<open>pb.collection(name)\<close>: the handle of one collection of the remote store. The
  store is a state machine about which the service layer knows nothing: each
  operation takes the store's state and answers with an error or a result, and a
  new state. Cancellations, rejected writes and stale reads are all behaviours of
  some store.
\<close>

record ('s, 'r) collection =
  c_getList :: "nat \<Rightarrow> nat \<Rightarrow> cond list \<Rightarrow> string \<Rightarrow> 's \<Rightarrow> (pb_error + 'r list) \<times> 's"
  c_create :: "fields \<Rightarrow> 's \<Rightarrow> (pb_error + 'r) \<times> 's"
  c_update :: "string \<Rightarrow> fields \<Rightarrow> 's \<Rightarrow> (pb_error + 'r) \<times> 's"
  c_delete :: "string \<Rightarrow> 's \<Rightarrow> (pb_error + unit) \<times> 's"

text \<open>What the store answers when a request succeeds: a page of records, one record, or nothing.\<close>

datatype 'r reply = Items "'r list" | Item 'r | Done

text \<open>
  The environment of a call: \<^verbatim>\<open>pb.authStore.isValid\<close>, whether
  \<^verbatim>\<open>pb.authStore.model\<close> is set, the store's state, the requests sent so far, each
  with the store's answer, the delays awaited (\<^verbatim>\<open>setTimeout\<close>, in milliseconds) and
  the lines printed with \<^verbatim>\<open>console.warn\<close> and \<^verbatim>\<open>console.error\<close>.
\<close>

type_synonym 'r event = "request \<times> (pb_error + 'r reply)"

record ('s, 'r) env =
  authValid :: bool
  authModel :: bool
  store :: 's
  trace :: "'r event list"
  sleeps :: "nat list"
  console :: "string list"

definition call ::
  "request \<Rightarrow> ('a \<Rightarrow> 'r reply) \<Rightarrow> ('s \<Rightarrow> (pb_error + 'a) \<times> 's) \<Rightarrow> ('s, 'r) env \<Rightarrow>
   (pb_error + 'a) \<times> ('s, 'r) env" where
  "call rq wrap f env =
     (case f (store env) of
        (r, s') \<Rightarrow> (r, env\<lparr>store := s', trace := trace env @ [(rq, map_sum id wrap r)]\<rparr>))"

definition sleep :: "nat \<Rightarrow> ('s, 'r) env \<Rightarrow> ('s, 'r) env" where
  "sleep ms env = env\<lparr>sleeps := sleeps env @ [ms]\<rparr>"

definition warn :: "string \<Rightarrow> ('s, 'r) env \<Rightarrow> ('s, 'r) env" where
  "warn line env = env\<lparr>console := console env @ [line]\<rparr>"

text \<open>The records that the store handed out in a run of events.\<close>

fun reply_items :: "'r event \<Rightarrow> 'r list" where
  "reply_items (rq, Inr (Items xs)) = xs"
| "reply_items (rq, Inr (Item x)) = [x]"
| "reply_items (rq, Inr Done) = []"
| "reply_items (rq, Inl e) = []"

definition retrieved :: "'r event list \<Rightarrow> 'r list" where
  "retrieved evs = concat (map reply_items evs)"

fun is_query :: "'r event \<Rightarrow> bool" where
  "is_query (GetList c page perPage flt srt, r) = True"
| "is_query _ = False"

fun is_create :: "'r event \<Rightarrow> bool" where
  "is_create (Create c data, r) = True"
| "is_create _ = False"

text \<open>The events of a call: what the trace has gained.\<close>

definition events_since :: "('s, 'r) env \<Rightarrow> ('s, 'r) env \<Rightarrow> 'r event list" where
  "events_since env env' = drop (length (trace env)) (trace env')"

text \<open>
  The JavaScript platform functions the code calls:
  \<^item> \<open>toISOString s\<close> is \<^verbatim>\<open>new Date(s).toISOString()\<close>, \<open>None\<close> when it throws
    \<^verbatim>\<open>RangeError\<close> (the string is not a date);
  \<^item> \<open>nextDayISOString s\<close> is \<^verbatim>\<open>d = new Date(s); d.setDate(d.getDate() + 1);
    d.toISOString()\<close>, \<open>None\<close> when it throws;
  \<^item> \<open>stringify\<close> is \<^verbatim>\<open>JSON.stringify\<close> on a field error;
  \<^item> \<open>numberToString\<close> is \<^verbatim>\<open>String\<close> on a number.
\<close>

record platform =
  toISOString :: "string \<Rightarrow> string option"
  nextDayISOString :: "string \<Rightarrow> string option"
  stringify :: "field_error \<Rightarrow> string"
  numberToString :: "js_number \<Rightarrow> string"

text \<open>A value printed by a template string.\<close>

fun template :: "platform \<Rightarrow> jsval \<Rightarrow> string" where
  "template P JUndefined = ''undefined''"
| "template P JNull = ''null''"
| "template P (JBool b) = (if b then ''true'' else ''false'')"
| "template P (JNum n) = numberToString P n"
| "template P (JStr s) = s"

subsection \<open>Authentication guard\<close>

text \<open>
  \<^verbatim>\<open>
  function ensureAuthenticated() {
    if (!pb.authStore.isValid || !pb.authStore.model) {
      throw new Error('User is not authenticated. Please sign in.');
    }
  }
  \<close>
\<close>

definition ensureAuthenticated :: "('s, 'r) env \<Rightarrow> thrown option" where
  "ensureAuthenticated env =
     (if \<not> authValid env \<or> \<not> authModel env
      then Some (Error ''User is not authenticated. Please sign in.'')
      else None)"

definition access_denied :: string where
  "access_denied = ''Access denied. Please check your PocketBase collection rules.''"

subsection \<open>Tasks\<close>

fun type_name :: "TaskType \<Rightarrow> string" where
  "type_name Daily = ''daily''"
| "type_name Goal = ''goal''"

text \<open>
  \<^verbatim>\<open>getTasks(userId, type?)\<close>: a cancelled request gives the empty list, every other
  error is printed and thrown with a message of its own.
\<close>

definition getTasks ::
  "('s, Task) collection \<Rightarrow> string \<Rightarrow> TaskType option \<Rightarrow> ('s, Task) env \<Rightarrow> (thrown + Task list) \<times> ('s, Task) env" where
  "getTasks C userId type env =
     (case ensureAuthenticated env of
        Some t \<Rightarrow> (Inl t, env)
      | None \<Rightarrow>
          let flt = [Eq ''user'' userId] @
                    (case type of Some ty \<Rightarrow> [Eq ''type'' (type_name ty)] | None \<Rightarrow> [])
          in case call (GetList ''tasks'' 1 500 flt ''-created'') Items
                       (c_getList C 1 500 flt ''-created'') env of
               (Inr items, env1) \<Rightarrow> (Inr items, env1)
             | (Inl e, env1) \<Rightarrow>
                 if autocancelled (err_message e) then (Inr [], env1)
                 else
                   let env2 = warn ''PocketBase error details:'' env1 in
                   if err_status e = 400 then
                     (Inl (Error (''Invalid filter syntax. Error: '' @ data_message_or_error e @
                        ''. Filter used: '' @ filter_string flt @
                        ''. Please check that the 'user' and 'type' fields exist in the tasks collection.'')),
                      env2)
                   else if err_status e = 403 then
                     (Inl (Error ''Access denied. Please check your PocketBase collection rules. The \"tasks\" collection should allow authenticated users to read their own records.''),
                      env2)
                   else (Inl (Error (''Failed to fetch tasks: '' @ data_message_or_error e)), env2))"

text \<open>
  \<^verbatim>\<open>createTask\<close>, \<^verbatim>\<open>updateTask\<close>, \<^verbatim>\<open>deleteTask\<close>, \<^verbatim>\<open>deleteDailyLog\<close> share one handler:
  status 403 becomes the access-denied error, every other error is thrown on.
\<close>

definition denied_or_rethrow :: "pb_error \<Rightarrow> thrown" where
  "denied_or_rethrow e = (if err_status e = 403 then Error access_denied else StoreError e)"

definition createTask ::
  "('s, Task) collection \<Rightarrow> fields \<Rightarrow> ('s, Task) env \<Rightarrow> (thrown + Task) \<times> ('s, Task) env" where
  "createTask C data env =
     (case ensureAuthenticated env of
        Some t \<Rightarrow> (Inl t, env)
      | None \<Rightarrow>
          (case call (Create ''tasks'' data) Item
                       (c_create C data) env of
             (Inr record, env1) \<Rightarrow> (Inr record, env1)
           | (Inl e, env1) \<Rightarrow> (Inl (denied_or_rethrow e), env1)))"

definition updateTask ::
  "('s, Task) collection \<Rightarrow> string \<Rightarrow> fields \<Rightarrow> ('s, Task) env \<Rightarrow> (thrown + Task) \<times> ('s, Task) env" where
  "updateTask C ident data env =
     (case ensureAuthenticated env of
        Some t \<Rightarrow> (Inl t, env)
      | None \<Rightarrow>
          (case call (Update ''tasks'' ident data) Item
                       (c_update C ident data) env of
             (Inr record, env1) \<Rightarrow> (Inr record, env1)
           | (Inl e, env1) \<Rightarrow> (Inl (denied_or_rethrow e), env1)))"

definition deleteTask ::
  "('s, Task) collection \<Rightarrow> string \<Rightarrow> ('s, Task) env \<Rightarrow> (thrown + bool) \<times> ('s, Task) env" where
  "deleteTask C ident env =
     (case ensureAuthenticated env of
        Some t \<Rightarrow> (Inl t, env)
      | None \<Rightarrow>
          (case call (Delete ''tasks'' ident) (\<lambda>u. Done)
                       (c_delete C ident) env of
             (Inr u, env1) \<Rightarrow> (Inr True, env1)
           | (Inl e, env1) \<Rightarrow> (Inl (denied_or_rethrow e), env1)))"

subsection \<open>Daily logs: queries\<close>

text \<open>
  \<^verbatim>\<open>
  const nextDate = new Date(normalizedDate);
  nextDate.setDate(nextDate.getDate() + 1);
  const nextDateStr = nextDate.toISOString().split('T')[0];
  \<close>
\<close>

definition nextDateStr :: "platform \<Rightarrow> string \<Rightarrow> string option" where
  "nextDateStr P normalizedDate =
     map_option (takeWhile (\<lambda>c. c \<noteq> CHR ''T'')) (nextDayISOString P normalizedDate)"

text \<open>An optional string argument counts as given when it is neither missing nor empty.\<close>

fun given :: "string option \<Rightarrow> string option" where
  "given None = None"
| "given (Some s) = (if s = [] then None else Some s)"

text \<open>The \<^verbatim>\<open>catch\<close> block of the three list queries once cancellation is excluded.\<close>

definition fetch_error :: "string \<Rightarrow> string \<Rightarrow> pb_error \<Rightarrow> thrown" where
  "fetch_error coll what e =
     (if err_status e = 400 then
        Error (''Invalid filter syntax: '' @ message_or_error e @
               ''. Please check that the fields exist in the '' @ coll @ '' collection.'')
      else if err_status e = 403 then Error access_denied
      else Error (''Failed to fetch '' @ what @ '': '' @ message_or_error e))"

text \<open>
  \<^verbatim>\<open>getDailyLogs(userId, taskId?, date?)\<close>: the date range is computed before the
  \<^verbatim>\<open>try\<close> block, so its \<^verbatim>\<open>RangeError\<close> is thrown to the caller; with a date, the
  result of the range query is filtered again by the normalized day.
\<close>

definition getDailyLogs ::
  "('s, DailyLog) collection \<Rightarrow> platform \<Rightarrow> string \<Rightarrow> string option \<Rightarrow> string option \<Rightarrow> ('s, DailyLog) env \<Rightarrow>
   (thrown + DailyLog list) \<times> ('s, DailyLog) env" where
  "getDailyLogs C P userId taskId date env =
     (case ensureAuthenticated env of
        Some t \<Rightarrow> (Inl t, env)
      | None \<Rightarrow>
          let parts = [Eq ''user'' userId] @
                      (case given taskId of Some t \<Rightarrow> [Eq ''task'' t] | None \<Rightarrow> []);
              range = (case given date of
                         None \<Rightarrow> Some []
                       | Some d \<Rightarrow>
                           map_option (\<lambda>next. [Ge ''date'' (normalizeDate d), Lt ''date'' next])
                             (nextDateStr P (normalizeDate d)))
          in case range of
               None \<Rightarrow> (Inl RangeError, env)
             | Some r \<Rightarrow>
                 (case call (GetList ''daily_logs'' 1 500 (parts @ r) ''-date'') Items
                       (c_getList C 1 500 (parts @ r) ''-date'') env of
                    (Inr items, env1) \<Rightarrow>
                      (case given date of
                         Some d \<Rightarrow>
                           (Inr (filter (\<lambda>item. normalizeDate (log_date item) = normalizeDate d) items),
                            env1)
                       | None \<Rightarrow> (Inr items, env1))
                  | (Inl e, env1) \<Rightarrow>
                      if autocancelled (err_message e) then (Inr [], env1)
                      else (Inl (fetch_error ''daily_logs'' ''daily logs'' e), env1)))"

text \<open>
  The retry loop of \<^verbatim>\<open>getDailyLogByTaskAndDate\<close>:
  \<^verbatim>\<open>
  for (let attempt = 0; attempt < 3; attempt++) {
    try {
      const records = await pb.collection('daily_logs').getList(1, 10, { filter });
      const matchingLog = records.items.find((item: any) => {
        const itemDate = normalizeDate(item.date);
        return itemDate === normalizedDate;
      });
      return matchingLog as any || null;
    } catch (error: any) {
      if (error.message && error.message.includes('autocancelled')) {
        if (attempt < 2) {
          await new Promise(resolve => setTimeout(resolve, 200 * (attempt + 1)));
          continue;
        } else {
          return null;
        }
      }
      ... throw
    }
  }
  return null;
  \<close>
\<close>

function getDailyLogByTaskAndDate_loop ::
  "('s, DailyLog) collection \<Rightarrow> cond list \<Rightarrow> string \<Rightarrow> nat \<Rightarrow> ('s, DailyLog) env \<Rightarrow> (thrown + DailyLog option) \<times> ('s, DailyLog) env" where
  "getDailyLogByTaskAndDate_loop C flt normalizedDate attempt env =
     (if attempt < 3 then
        (case call (GetList ''daily_logs'' 1 10 flt []) Items
                       (c_getList C 1 10 flt []) env of
           (Inr items, env1) \<Rightarrow>
             (Inr (find (\<lambda>item. normalizeDate (log_date item) = normalizedDate) items), env1)
         | (Inl e, env1) \<Rightarrow>
             if autocancelled (err_message e) then
               (if attempt < 2 then
                  getDailyLogByTaskAndDate_loop C flt normalizedDate (attempt + 1)
                    (sleep (200 * (attempt + 1)) env1)
                else (Inr None, env1))
             else (Inl (fetch_error ''daily_logs'' ''daily log'' e), env1))
      else (Inr None, env))"
  by pat_completeness auto
termination
  by (relation "measure (\<lambda>(C, flt, normalizedDate, attempt, env). 3 - attempt)") auto

text \<open>
  \<^verbatim>\<open>
  const filter = `user = "${userId}" && task = "${taskId}" && date >= "${normalizedDate}" && date < "${nextDateStr}"`;
  \<close>
\<close>

definition probe_filter :: "string \<Rightarrow> string \<Rightarrow> string \<Rightarrow> string \<Rightarrow> cond list" where
  "probe_filter userId taskId normalizedDate next =
     [Eq ''user'' userId, Eq ''task'' taskId, Ge ''date'' normalizedDate, Lt ''date'' next]"

definition getDailyLogByTaskAndDate ::
  "('s, DailyLog) collection \<Rightarrow> platform \<Rightarrow> string \<Rightarrow> string \<Rightarrow> string \<Rightarrow> ('s, DailyLog) env \<Rightarrow>
   (thrown + DailyLog option) \<times> ('s, DailyLog) env" where
  "getDailyLogByTaskAndDate C P userId taskId date env =
     (case ensureAuthenticated env of
        Some t \<Rightarrow> (Inl t, env)
      | None \<Rightarrow>
          (case nextDateStr P (normalizeDate date) of
             None \<Rightarrow> (Inl RangeError, env)
           | Some next \<Rightarrow>
               getDailyLogByTaskAndDate_loop C
                 (probe_filter userId taskId (normalizeDate date) next)
                 (normalizeDate date) 0 env))"

subsection \<open>Batch Reconciler\<close>

text \<open>
  The double check of one task in \<^verbatim>\<open>ensureDailyLogsExist\<close>:
  \<^verbatim>\<open>
  let existing: DailyLog | null = null;
  for (let attempt = 0; attempt < 2; attempt++) {
    try {
      existing = await getDailyLogByTaskAndDate(userId, task.id, normalizedDate);
      if (existing) break;
    } catch (checkError: any) {
      if (checkError.message?.includes('autocancelled') && attempt < 1) {
        await new Promise(resolve => setTimeout(resolve, 300));
        continue;
      }
      break;
    }
  }
  \<close>
\<close>

function ensure_check_loop ::
  "('s, DailyLog) collection \<Rightarrow> platform \<Rightarrow> string \<Rightarrow> string \<Rightarrow> string \<Rightarrow> nat \<Rightarrow> ('s, DailyLog) env \<Rightarrow>
   DailyLog option \<times> ('s, DailyLog) env" where
  "ensure_check_loop C P userId taskId normalizedDate attempt env =
     (if attempt < 2 then
        (case getDailyLogByTaskAndDate C P userId taskId normalizedDate env of
           (Inr (Some existing), env1) \<Rightarrow> (Some existing, env1)
         | (Inr None, env1) \<Rightarrow>
             ensure_check_loop C P userId taskId normalizedDate (attempt + 1) env1
         | (Inl checkError, env1) \<Rightarrow>
             if autocancelled (thrown_message checkError) \<and> attempt < 1 then
               ensure_check_loop C P userId taskId normalizedDate (attempt + 1) (sleep 300 env1)
             else (None, env1))
      else (None, env))"
  by pat_completeness auto
termination
  by (relation "measure (\<lambda>(C, P, userId, taskId, normalizedDate, attempt, env). 2 - attempt)") auto

text \<open>
  \<^verbatim>\<open>
  const hasUniqueError =
    (errorData && (
      errorData.date?.code === 'validation_not_unique' || ... task ... || ... user ... ||
      (typeof errorData === 'object' && Object.values(errorData).some((v: any) =>
        v?.code === 'validation_not_unique' || v?.message?.includes('unique')))
    )) ||
    errorMessage?.toLowerCase().includes('unique') ||
    errorMessage?.toLowerCase().includes('already exists');
  \<close>
\<close>

definition ensure_hasUniqueError :: "thrown \<Rightarrow> bool" where
  "ensure_hasUniqueError error =
     ((case errorData_of error of
         Some d \<Rightarrow> key_not_unique d \<or> some_value_not_unique d
       | None \<Rightarrow> False) \<or>
      str_includes (toLowerCase (errorMessage_of error)) ''unique'' \<or>
      str_includes (toLowerCase (errorMessage_of error)) ''already exists'')"

text \<open>
  The \<^verbatim>\<open>catch\<close> block around one task:
  \<^verbatim>\<open>
  if (hasUniqueError || (error?.status === 400 && errorData)) {
    continue;
  }
  console.warn(`[ensureDailyLogsExist] Unexpected error creating log for task ${task.id}:`, ...);
  \<close>
  A duplicate, or any status 400 with error data, is skipped silently, every other
  error is printed; nothing is thrown.
\<close>

definition ensure_skips :: "thrown \<Rightarrow> bool" where
  "ensure_skips error =
     (ensure_hasUniqueError error \<or>
      (thrown_status error = Some 400 \<and> errorData_of error \<noteq> None))"

definition warning_line :: "string \<Rightarrow> string" where
  "warning_line taskId =
     ''[ensureDailyLogsExist] Unexpected error creating log for task '' @ taskId @ '':''"

definition ensure_catch :: "Task \<Rightarrow> thrown \<Rightarrow> ('s, DailyLog) env \<Rightarrow> ('s, DailyLog) env" where
  "ensure_catch task error env =
     (if ensure_skips error then env else warn (warning_line (task_id task)) env)"

text \<open>
  \<^verbatim>\<open>
  const logData: any = { task: ..., date: isoDateString, user: userId, value_bool: false };
  \<close>
\<close>

definition logData :: "string \<Rightarrow> string \<Rightarrow> string \<Rightarrow> fields" where
  "logData taskId isoDateString userId =
     [(''task'', JStr taskId), (''date'', JStr isoDateString), (''user'', JStr userId),
      (''value_bool'', JBool False)]"

text \<open>The body of the loop over the tasks that need a log.\<close>

definition ensure_task ::
  "('s, DailyLog) collection \<Rightarrow> platform \<Rightarrow> string \<Rightarrow> string \<Rightarrow> Task \<Rightarrow> ('s, DailyLog) env \<Rightarrow> ('s, DailyLog) env" where
  "ensure_task C P userId normalizedDate task env =
     (case ensure_check_loop C P userId (task_id task) normalizedDate 0 env of
        (Some existing, env1) \<Rightarrow> env1
      | (None, env1) \<Rightarrow>
          (case toISOString P (normalizedDate @ ''T00:00:00.000Z'') of
             None \<Rightarrow> ensure_catch task RangeError env1
           | Some isoDateString \<Rightarrow>
               (case call (Create ''daily_logs'' (logData (task_id task) isoDateString userId)) Item
                       (c_create C (logData (task_id task) isoDateString userId)) env1 of
                  (Inr record, env2) \<Rightarrow> env2
                | (Inl e, env2) \<Rightarrow> ensure_catch task (StoreError e) env2)))"

fun ensure_tasks ::
  "('s, DailyLog) collection \<Rightarrow> platform \<Rightarrow> string \<Rightarrow> string \<Rightarrow> Task list \<Rightarrow> ('s, DailyLog) env \<Rightarrow> ('s, DailyLog) env" where
  "ensure_tasks C P userId normalizedDate [] env = env"
| "ensure_tasks C P userId normalizedDate (task # rest) env =
     ensure_tasks C P userId normalizedDate rest (ensure_task C P userId normalizedDate task env)"

text \<open>
  The snapshot of \<^verbatim>\<open>ensureDailyLogsExist\<close>: a failure to fetch it gives the empty
  list, printed unless it is a cancellation.
\<close>

definition ensure_snapshot ::
  "('s, DailyLog) collection \<Rightarrow> platform \<Rightarrow> string \<Rightarrow> string \<Rightarrow> ('s, DailyLog) env \<Rightarrow> DailyLog list \<times> ('s, DailyLog) env" where
  "ensure_snapshot C P userId normalizedDate env =
     (case getDailyLogs C P userId None (Some normalizedDate) env of
        (Inr logs, env1) \<Rightarrow> (logs, env1)
      | (Inl error, env1) \<Rightarrow>
          ([], if \<not> autocancelled (thrown_message error)
               then warn ''Failed to fetch existing logs, will attempt individual checks:'' env1
               else env1))"

definition tasksNeedingLogs :: "string \<Rightarrow> DailyLog list \<Rightarrow> Task list \<Rightarrow> Task list" where
  "tasksNeedingLogs normalizedDate existingLogs tasks =
     (let existingTaskIds =
            set (map log_task
                   (filter (\<lambda>log. normalizeDate (log_date log) = normalizedDate) existingLogs))
      in filter (\<lambda>task. task_id task \<notin> existingTaskIds) tasks)"

definition ensureDailyLogsExist ::
  "('s, DailyLog) collection \<Rightarrow> platform \<Rightarrow> string \<Rightarrow> Task list \<Rightarrow> string \<Rightarrow> ('s, DailyLog) env \<Rightarrow>
   (thrown + unit) \<times> ('s, DailyLog) env" where
  "ensureDailyLogsExist C P userId tasks date env =
     (case ensureAuthenticated env of
        Some t \<Rightarrow> (Inl t, env)
      | None \<Rightarrow>
          if tasks = [] then (Inr (), env)
          else
            (case ensure_snapshot C P userId (normalizeDate date) env of
               (existingLogs, env1) \<Rightarrow>
                 (Inr (),
                  ensure_tasks C P userId (normalizeDate date)
                    (tasksNeedingLogs (normalizeDate date) existingLogs tasks) env1)))"

subsection \<open>Idempotent Creator\<close>

text \<open>
  The first check of \<^verbatim>\<open>createDailyLogIfNeeded\<close>:
  \<^verbatim>\<open>
  for (let attempt = 0; attempt < 3; attempt++) {
    try {
      existing = await getDailyLogByTaskAndDate(userId, taskId, normalizedDate);
      if (existing) break;
    } catch (checkError: any) {
      if (checkError.message?.includes('autocancelled') && attempt < 2) {
        await new Promise(resolve => setTimeout(resolve, 200 * (attempt + 1)));
        continue;
      }
    }
    if (existing) break;
  }
  \<close>
  and the loop that fetches the record again after a duplicate, which is the same
  but for a constant delay of 300.
\<close>

function create_check_loop ::
  "('s, DailyLog) collection \<Rightarrow> platform \<Rightarrow> string \<Rightarrow> string \<Rightarrow> string \<Rightarrow> (nat \<Rightarrow> nat) \<Rightarrow> nat \<Rightarrow>
   ('s, DailyLog) env \<Rightarrow> DailyLog option \<times> ('s, DailyLog) env" where
  "create_check_loop C P userId taskId normalizedDate delay attempt env =
     (if attempt < 3 then
        (case getDailyLogByTaskAndDate C P userId taskId normalizedDate env of
           (Inr (Some existing), env1) \<Rightarrow> (Some existing, env1)
         | (Inr None, env1) \<Rightarrow>
             create_check_loop C P userId taskId normalizedDate delay (attempt + 1) env1
         | (Inl checkError, env1) \<Rightarrow>
             if autocancelled (thrown_message checkError) \<and> attempt < 2 then
               create_check_loop C P userId taskId normalizedDate delay (attempt + 1)
                 (sleep (delay attempt) env1)
             else create_check_loop C P userId taskId normalizedDate delay (attempt + 1) env1)
      else (None, env))"
  by pat_completeness auto
termination
  by (relation "measure (\<lambda>(C, P, userId, taskId, normalizedDate, delay, attempt, env). 3 - attempt)")
     auto

text \<open>
  \<^verbatim>\<open>
  let errorMsg = 'Failed to create record.';
  if (errorData) {
    if (errorData.message) { errorMsg = errorData.message; }
    else if (typeof errorData === 'string') { errorMsg = errorData; }
    else {
      const fieldErrors: string[] = [];
      for (const key in errorData) {
        if (errorData[key] && typeof errorData[key] === 'object') {
          fieldErrors.push(`${key}: ${JSON.stringify(errorData[key])}`);
        }
      }
      if (fieldErrors.length > 0) { errorMsg = fieldErrors.join(', '); }
    }
  }
  \<close>
  An object given to \<^verbatim>\<open>new Error\<close> as its message prints as \<^verbatim>\<open>[object Object]\<close>.
\<close>

fun fieldErrors :: "platform \<Rightarrow> (string \<times> data_value) list \<Rightarrow> string list" where
  "fieldErrors P [] = []"
| "fieldErrors P ((key, DObj fe) # d) = (key @ '': '' @ stringify P fe) # fieldErrors P d"
| "fieldErrors P ((key, DStr s) # d) = fieldErrors P d"

definition create_errorMsg :: "platform \<Rightarrow> error_data option \<Rightarrow> string" where
  "create_errorMsg P errorData =
     (case errorData of
        None \<Rightarrow> ''Failed to create record.''
      | Some (DataString s) \<Rightarrow> s
      | Some (DataObject d) \<Rightarrow>
          (case map_of d ''message'' of
             Some (DObj fe) \<Rightarrow> ''[object Object]''
           | Some (DStr m) \<Rightarrow>
               if m \<noteq> [] then m
               else if fieldErrors P d \<noteq> [] then join '', '' (fieldErrors P d)
               else ''Failed to create record.''
           | None \<Rightarrow>
               if fieldErrors P d \<noteq> [] then join '', '' (fieldErrors P d)
               else ''Failed to create record.''))"

text \<open>
  \<^verbatim>\<open>
  const hasUniqueError = errorData && (
    errorData.date?.code === 'validation_not_unique' ||
    errorData.task?.code === 'validation_not_unique' ||
    errorData.user?.code === 'validation_not_unique');
  if (hasUniqueError || (error?.status === 400 && errorData)) {
  \<close>
\<close>

definition create_duplicate :: "pb_error \<Rightarrow> bool" where
  "create_duplicate e =
     (case errorData_of (StoreError e) of
        Some d \<Rightarrow> key_not_unique d \<or> err_status e = 400
      | None \<Rightarrow> False)"

text \<open>
  The last resort after a duplicate: all the user's logs, scanned for the task and
  the day.
\<close>

definition create_fallback ::
  "('s, DailyLog) collection \<Rightarrow> platform \<Rightarrow> string \<Rightarrow> string \<Rightarrow> string \<Rightarrow> ('s, DailyLog) env \<Rightarrow>
   DailyLog option \<times> ('s, DailyLog) env" where
  "create_fallback C P userId taskId normalizedDate env =
     (case getDailyLogs C P userId None None env of
        (Inr allLogs, env1) \<Rightarrow>
          (find (\<lambda>log. log_task log = taskId \<and> normalizeDate (log_date log) = normalizedDate)
             allLogs,
           env1)
      | (Inl fetchAllError, env1) \<Rightarrow>
          (None,
           warn ''Record exists but could not be retrieved. Caller should reload data.'' env1))"

text \<open>The \<^verbatim>\<open>catch\<close> block around the create request.\<close>

definition create_catch ::
  "('s, DailyLog) collection \<Rightarrow> platform \<Rightarrow> string \<Rightarrow> string \<Rightarrow> string \<Rightarrow> pb_error \<Rightarrow> ('s, DailyLog) env \<Rightarrow>
   (thrown + DailyLog option) \<times> ('s, DailyLog) env" where
  "create_catch C P userId taskId normalizedDate error env =
     (if create_duplicate error then
        (case create_check_loop C P userId taskId normalizedDate (\<lambda>attempt. 300) 0
                (sleep 300 env) of
           (Some record, env1) \<Rightarrow> (Inr (Some record), env1)
         | (None, env1) \<Rightarrow>
             (case create_fallback C P userId taskId normalizedDate env1 of
                (found, env2) \<Rightarrow> (Inr found, env2)))
      else (Inl (Error (create_errorMsg P (errorData_of (StoreError error)))), env))"

definition createDailyLogIfNeeded ::
  "('s, DailyLog) collection \<Rightarrow> platform \<Rightarrow> string \<Rightarrow> string \<Rightarrow> string \<Rightarrow> ('s, DailyLog) env \<Rightarrow>
   (thrown + DailyLog option) \<times> ('s, DailyLog) env" where
  "createDailyLogIfNeeded C P userId taskId date env =
     (case ensureAuthenticated env of
        Some t \<Rightarrow> (Inl t, env)
      | None \<Rightarrow>
          (case create_check_loop C P userId taskId (normalizeDate date)
                  (\<lambda>attempt. 200 * (attempt + 1)) 0 env of
             (Some existing, env1) \<Rightarrow> (Inr (Some existing), env1)
           | (None, env1) \<Rightarrow>
               (case toISOString P (normalizeDate date @ ''T00:00:00.000Z'') of
                  None \<Rightarrow> (Inl RangeError, env1)
                | Some isoDateString \<Rightarrow>
                    (case call (Create ''daily_logs'' (logData taskId isoDateString userId)) Item
                       (c_create C (logData taskId isoDateString userId)) env1 of
                       (Inr record, env2) \<Rightarrow> (Inr (Some record), env2)
                     | (Inl error, env2) \<Rightarrow>
                         create_catch C P userId taskId (normalizeDate date) error env2))))"

subsection \<open>Mutation Applier\<close>

text \<open>
  \<^verbatim>\<open>
  const cleanData: any = {};
  if (data.value_bool !== undefined && data.value_bool !== null) {
    cleanData.value_bool = data.value_bool;
  }
  if (data.value_number !== undefined && data.value_number !== null) {
    cleanData.value_number = data.value_number;
  }
  if (data.note !== undefined && data.note !== null && data.note !== '') {
    cleanData.note = data.note;
  }
  \<close>
\<close>

definition copy_provided :: "fields \<Rightarrow> string \<Rightarrow> fields \<Rightarrow> fields" where
  "copy_provided data k cleanData =
     (if get_prop data k \<noteq> JUndefined \<and> get_prop data k \<noteq> JNull
      then set_prop cleanData k (get_prop data k) else cleanData)"

definition cleanData :: "fields \<Rightarrow> fields" where
  "cleanData data =
     (let c1 = copy_provided data ''value_bool'' [];
          c2 = copy_provided data ''value_number'' c1
      in if get_prop data ''note'' \<noteq> JUndefined \<and> get_prop data ''note'' \<noteq> JNull \<and>
            get_prop data ''note'' \<noteq> JStr []
         then set_prop c2 ''note'' (get_prop data ''note'') else c2)"

definition updateDailyLog ::
  "('s, DailyLog) collection \<Rightarrow> string \<Rightarrow> fields \<Rightarrow> ('s, DailyLog) env \<Rightarrow> (thrown + DailyLog) \<times> ('s, DailyLog) env" where
  "updateDailyLog C logId data env =
     (case ensureAuthenticated env of
        Some t \<Rightarrow> (Inl t, env)
      | None \<Rightarrow>
          (case call (Update ''daily_logs'' logId (cleanData data)) Item
                       (c_update C logId (cleanData data)) env of
             (Inr record, env1) \<Rightarrow> (Inr record, env1)
           | (Inl e, env1) \<Rightarrow>
               if err_status e = 400 then
                 (Inl (Error (''Failed to update: '' @ data_message_or_error e)), env1)
               else if err_status e = 403 then (Inl (Error access_denied), env1)
               else (Inl (Error (''Failed to update daily log: '' @ message_or_error e)), env1)))"

definition deleteDailyLog ::
  "('s, DailyLog) collection \<Rightarrow> string \<Rightarrow> ('s, DailyLog) env \<Rightarrow> (thrown + bool) \<times> ('s, DailyLog) env" where
  "deleteDailyLog C ident env =
     (case ensureAuthenticated env of
        Some t \<Rightarrow> (Inl t, env)
      | None \<Rightarrow>
          (case call (Delete ''daily_logs'' ident) (\<lambda>u. Done)
                       (c_delete C ident) env of
             (Inr u, env1) \<Rightarrow> (Inr True, env1)
           | (Inl e, env1) \<Rightarrow> (Inl (denied_or_rethrow e), env1)))"

subsection \<open>Goal progress\<close>

definition getGoalProgress ::
  "('s, GoalProgress) collection \<Rightarrow> string \<Rightarrow> string option \<Rightarrow> ('s, GoalProgress) env \<Rightarrow>
   (thrown + GoalProgress list) \<times> ('s, GoalProgress) env" where
  "getGoalProgress C userId taskId env =
     (case ensureAuthenticated env of
        Some t \<Rightarrow> (Inl t, env)
      | None \<Rightarrow>
          let flt = [Eq ''user'' userId] @
                    (case given taskId of Some t \<Rightarrow> [Eq ''task'' t] | None \<Rightarrow> [])
          in case call (GetList ''goal_progress'' 1 500 flt ''-date'') Items
                       (c_getList C 1 500 flt ''-date'') env of
               (Inr items, env1) \<Rightarrow> (Inr items, env1)
             | (Inl e, env1) \<Rightarrow>
                 if autocancelled (err_message e) then (Inr [], env1)
                 else (Inl (fetch_error ''goal_progress'' ''goal progress'' e), env1))"

text \<open>
  \<^verbatim>\<open>createOrUpdateGoalProgress(data)\<close>: the whole body is inside the \<^verbatim>\<open>try\<close>
  block; the entry of the day is updated when the query finds one, created
  otherwise.
\<close>

definition createOrUpdateGoalProgress ::
  "('s, GoalProgress) collection \<Rightarrow> platform \<Rightarrow> fields \<Rightarrow> ('s, GoalProgress) env \<Rightarrow>
   (thrown + GoalProgress) \<times> ('s, GoalProgress) env" where
  "createOrUpdateGoalProgress C P data env =
     (case ensureAuthenticated env of
        Some t \<Rightarrow> (Inl t, env)
      | None \<Rightarrow>
          let flt = [Eq ''user'' (template P (get_prop data ''user'')),
                     Eq ''task'' (template P (get_prop data ''task'')),
                     Eq ''date'' (template P (get_prop data ''date''))]
          in case call (GetList ''goal_progress'' 1 1 flt []) Items
                       (c_getList C 1 1 flt []) env of
               (Inl e, env1) \<Rightarrow> (Inl (denied_or_rethrow e), env1)
             | (Inr [], env1) \<Rightarrow>
                 (case call (Create ''goal_progress'' data) Item
                       (c_create C data) env1 of
                    (Inr record, env2) \<Rightarrow> (Inr record, env2)
                  | (Inl e, env2) \<Rightarrow> (Inl (denied_or_rethrow e), env2))
             | (Inr (item # items), env1) \<Rightarrow>
                 (case call (Update ''goal_progress'' (gp_id item) data) Item
                       (c_update C (gp_id item) data) env1 of
                    (Inr record, env2) \<Rightarrow> (Inr record, env2)
                  | (Inl e, env2) \<Rightarrow> (Inl (denied_or_rethrow e), env2)))"

subsection \<open>A reference store for the daily logs\<close>

text \<open>
  Modelled from the spec: the remote store itself is not part of the repository. The
  reference store follows section 6 of the specification and the schema document:
  \<^verbatim>\<open>daily_logs\<close> holds its records in creation order, \<^verbatim>\<open>date\<close> is a text field,
  a filter is a conjunction of equality and range conditions on text fields, a second
  record with the same (task, user, date) is rejected with status 400 and the field
  code \<^verbatim>\<open>validation_not_unique\<close>, and an update changes only the fields it is given
  (\<^verbatim>\<open>null\<close> clears a field). The body of a create or update request reaches
  the store as JSON: a key whose value is \<^verbatim>\<open>undefined\<close> is left out, and \<^verbatim>\<open>NaN\<close> and
  the infinities are written as \<^verbatim>\<open>null\<close>. The script lets a run inject failures: the
  head of the script is the outcome of the next request, \<open>Some e\<close> making it fail with
  \<open>e\<close> and without effect; an empty script injects nothing.
\<close>

fun json_value :: "jsval \<Rightarrow> jsval option" where
  "json_value JUndefined = None"
| "json_value (JNum (Finite x)) = Some (JNum (Finite x))"
| "json_value (JNum n) = Some JNull"
| "json_value v = Some v"

fun json_body :: "fields \<Rightarrow> fields" where
  "json_body [] = []"
| "json_body ((k, v) # data) =
     (case json_value v of None \<Rightarrow> json_body data | Some w \<Rightarrow> (k, w) # json_body data)"

record pb_state =
  st_logs :: "DailyLog list"
  st_script :: "pb_error option list"
  st_now :: string

definition plain_error :: "nat \<Rightarrow> string \<Rightarrow> pb_error" where
  "plain_error status msg =
     \<lparr>err_status = status, err_message = msg, err_string = ''ClientResponseError: '' @ msg,
      err_response_data = None, err_data = Some \<lparr>p_message = msg, p_data = Some (DataObject [])\<rparr>\<rparr>"

definition not_unique_error :: pb_error where
  "not_unique_error =
     \<lparr>err_status = 400, err_message = ''Failed to create record.'',
      err_string = ''ClientResponseError 400: Failed to create record.'',
      err_response_data = None,
      err_data = Some \<lparr>p_message = ''Failed to create record.'',
                       p_data = Some (DataObject
                         [(''task'', DObj \<lparr>fe_code = ''validation_not_unique'',
                                           fe_message = ''Value must be unique.''\<rparr>)])\<rparr>\<rparr>"

definition cancelled_error :: pb_error where
  "cancelled_error =
     \<lparr>err_status = 0, err_message = ''The request was autocancelled.'',
      err_string = ''ClientResponseError 0: The request was autocancelled.'',
      err_response_data = None, err_data = Some \<lparr>p_message = [], p_data = None\<rparr>\<rparr>"

fun log_field :: "DailyLog \<Rightarrow> string \<Rightarrow> string option" where
  "log_field l k =
     (if k = ''id'' then Some (log_id l)
      else if k = ''task'' then Some (log_task l)
      else if k = ''user'' then Some (log_user l)
      else if k = ''date'' then Some (log_date l)
      else if k = ''created'' then Some (log_created l)
      else if k = ''updated'' then Some (log_updated l)
      else None)"

fun cond_field :: "cond \<Rightarrow> string" where
  "cond_field (Eq f v) = f"
| "cond_field (Ge f v) = f"
| "cond_field (Lt f v) = f"

text \<open>Text fields compare as strings, character by character.\<close>

fun sat_cond :: "DailyLog \<Rightarrow> cond \<Rightarrow> bool" where
  "sat_cond l (Eq f v) = (log_field l f = Some v)"
| "sat_cond l (Ge f v) = (case log_field l f of Some x \<Rightarrow> v \<le> x | None \<Rightarrow> False)"
| "sat_cond l (Lt f v) = (case log_field l f of Some x \<Rightarrow> x < v | None \<Rightarrow> False)"

definition sat :: "cond list \<Rightarrow> DailyLog \<Rightarrow> bool" where
  "sat flt l = list_all (sat_cond l) flt"

definition known_fields :: "cond list \<Rightarrow> bool" where
  "known_fields flt =
     list_all (\<lambda>c. cond_field c \<in> set [''id'', ''task'', ''user'', ''date'', ''created'', ''updated'']) flt"

text \<open>The next outcome of the script, and the rest of it.\<close>

fun next_outcome :: "pb_state \<Rightarrow> pb_error option \<times> pb_state" where
  "next_outcome s =
     (case st_script s of
        [] \<Rightarrow> (None, s)
      | out # rest \<Rightarrow> (out, s\<lparr>st_script := rest\<rparr>))"

definition ref_getList ::
  "nat \<Rightarrow> nat \<Rightarrow> cond list \<Rightarrow> string \<Rightarrow> pb_state \<Rightarrow> (pb_error + DailyLog list) \<times> pb_state" where
  "ref_getList page perPage flt srt s =
     (case next_outcome s of
        (Some e, s1) \<Rightarrow> (Inl e, s1)
      | (None, s1) \<Rightarrow>
          if \<not> known_fields flt then (Inl (plain_error 400 ''Invalid filter.''), s1)
          else
            let found = filter (sat flt) (st_logs s1);
                ordered = (if srt = ''-date'' then rev (sort_key log_date found) else found)
            in (Inr (take perPage (drop ((page - 1) * perPage) ordered)), s1))"

fun text_field :: "fields \<Rightarrow> string \<Rightarrow> string option" where
  "text_field data k = (case get_prop data k of JStr v \<Rightarrow> Some v | _ \<Rightarrow> None)"

text \<open>The identifier of a new record: a fresh one, taken from the number of records.\<close>

definition fresh_id :: "DailyLog list \<Rightarrow> string" where
  "fresh_id logs = replicate (Suc (length logs)) CHR ''r''"

definition ref_create :: "fields \<Rightarrow> pb_state \<Rightarrow> (pb_error + DailyLog) \<times> pb_state" where
  "ref_create data s =
     (case next_outcome s of
        (Some e, s1) \<Rightarrow> (Inl e, s1)
      | (None, s1) \<Rightarrow>
          let body = json_body data in
          (case (text_field body ''task'', text_field body ''user'', text_field body ''date'') of
             (Some t, Some u, Some d) \<Rightarrow>
               if list_ex (\<lambda>l. log_task l = t \<and> log_user l = u \<and> log_date l = d) (st_logs s1)
               then (Inl not_unique_error, s1)
               else
                 let record = \<lparr>log_id = fresh_id (st_logs s1), log_task = t, log_date = d,
                      log_value_bool = (case get_prop body ''value_bool'' of
                                          JBool b \<Rightarrow> Some b | _ \<Rightarrow> None),
                      log_value_number = (case get_prop body ''value_number'' of
                                            JNum n \<Rightarrow> Some n | _ \<Rightarrow> None),
                      log_note = (case get_prop body ''note'' of JStr n \<Rightarrow> Some n | _ \<Rightarrow> None),
                      log_user = u, log_created = st_now s1, log_updated = st_now s1\<rparr>
                 in (Inr record, s1\<lparr>st_logs := st_logs s1 @ [record]\<rparr>)
           | _ \<Rightarrow> (Inl (plain_error 400 ''Failed to create record.''), s1)))"

text \<open>
  An update of one record: only the keys of the body change the record, and
  \<^verbatim>\<open>null\<close> clears the field.
\<close>

definition patch :: "fields \<Rightarrow> DailyLog \<Rightarrow> DailyLog" where
  "patch data l =
     l\<lparr>log_value_bool :=
         (case map_of data ''value_bool'' of
            Some (JBool b) \<Rightarrow> Some b | Some JNull \<Rightarrow> None | _ \<Rightarrow> log_value_bool l),
       log_value_number :=
         (case map_of data ''value_number'' of
            Some (JNum n) \<Rightarrow> Some n | Some JNull \<Rightarrow> None | _ \<Rightarrow> log_value_number l),
       log_note :=
         (case map_of data ''note'' of
            Some (JStr n) \<Rightarrow> Some n | Some JNull \<Rightarrow> None | _ \<Rightarrow> log_note l)\<rparr>"

definition ref_update ::
  "string \<Rightarrow> fields \<Rightarrow> pb_state \<Rightarrow> (pb_error + DailyLog) \<times> pb_state" where
  "ref_update ident data s =
     (case next_outcome s of
        (Some e, s1) \<Rightarrow> (Inl e, s1)
      | (None, s1) \<Rightarrow>
          (case find (\<lambda>l. log_id l = ident) (st_logs s1) of
             None \<Rightarrow> (Inl (plain_error 404 ''The requested resource was not found.''), s1)
           | Some l \<Rightarrow>
               (Inr (patch (json_body data) l),
                s1\<lparr>st_logs := map (\<lambda>x. if log_id x = ident then patch (json_body data) x else x)
                                 (st_logs s1)\<rparr>)))"

definition ref_delete :: "string \<Rightarrow> pb_state \<Rightarrow> (pb_error + unit) \<times> pb_state" where
  "ref_delete ident s =
     (case next_outcome s of
        (Some e, s1) \<Rightarrow> (Inl e, s1)
      | (None, s1) \<Rightarrow>
          if list_ex (\<lambda>l. log_id l = ident) (st_logs s1)
          then (Inr (), s1\<lparr>st_logs := filter (\<lambda>l. log_id l \<noteq> ident) (st_logs s1)\<rparr>)
          else (Inl (plain_error 404 ''The requested resource was not found.''), s1))"

definition daily_logs :: "(pb_state, DailyLog) collection" where
  "daily_logs =
     \<lparr>c_getList = ref_getList, c_create = ref_create, c_update = ref_update,
      c_delete = ref_delete\<rparr>"

text \<open>A collection that cannot be reached: every request fails with status 0.\<close>

definition unreachable :: "('s, 'r) collection" where
  "unreachable =
     \<lparr>c_getList = (\<lambda>page perPage flt srt s. (Inl (plain_error 0 ''Failed to fetch''), s)),
      c_create = (\<lambda>data s. (Inl (plain_error 0 ''Failed to fetch''), s)),
      c_update = (\<lambda>ident data s. (Inl (plain_error 0 ''Failed to fetch''), s)),
      c_delete = (\<lambda>ident s. (Inl (plain_error 0 ''Failed to fetch''), s))\<rparr>"

subsection \<open>Example data\<close>

text \<open>
  A platform for the examples: it knows the day 2024-01-15 and rejects every other
  string as a date.
\<close>

definition example_platform :: platform where
  "example_platform =
     \<lparr>toISOString = (\<lambda>s. if s = ''2024-01-15T00:00:00.000Z'' then Some s else None),
      nextDayISOString =
        (\<lambda>s. if s = ''2024-01-15'' then Some ''2024-01-16T00:00:00.000Z'' else None),
      stringify = (\<lambda>fe. ''{code: '' @ fe_code fe @ '', message: '' @ fe_message fe @ ''}''),
      numberToString =
        (\<lambda>n. case n of Finite x \<Rightarrow> if x = 0 then ''0'' else ''1'' | NaN \<Rightarrow> ''NaN''
              | PosInfinity \<Rightarrow> ''Infinity'' | NegInfinity \<Rightarrow> ''-Infinity'')\<rparr>"

definition empty_store :: pb_state where
  "empty_store = \<lparr>st_logs = [], st_script = [], st_now = ''2024-01-15 08:00:00.000Z''\<rparr>"

definition signed_in :: "'s \<Rightarrow> ('s, 'r) env" where
  "signed_in s =
     \<lparr>authValid = True, authModel = True, store = s, trace = [], sleeps = [], console = []\<rparr>"

definition signed_out :: "'s \<Rightarrow> ('s, 'r) env" where
  "signed_out s =
     \<lparr>authValid = False, authModel = False, store = s, trace = [], sleeps = [], console = []\<rparr>"

definition example_task :: "string \<Rightarrow> Task" where
  "example_task ident =
     \<lparr>task_id = ident, task_name = ident, task_type = Daily, task_daily_mode = Some Checklist,
      task_target = None, task_unit = None, task_user = ''u1'',
      task_created = ''2024-01-01 00:00:00.000Z'', task_updated = ''2024-01-01 00:00:00.000Z'',
      task_description = None, task_tag = None\<rparr>"

subsection \<open>Stored fields across an update\<close>

text \<open>
  A field counts as not given when the input has it missing, \<^verbatim>\<open>undefined\<close> or
  \<^verbatim>\<open>null\<close>, and the note also when it is the empty string. A stored field is cleared
  when it had a value and has none afterwards.
\<close>

definition not_given :: "fields \<Rightarrow> string \<Rightarrow> bool" where
  "not_given data k =
     (get_prop data k = JUndefined \<or> get_prop data k = JNull \<or>
      (k = ''note'' \<and> get_prop data k = JStr []))"

definition cleared :: "'a option \<Rightarrow> 'a option \<Rightarrow> bool" where
  "cleared old new = (old \<noteq> None \<and> new = None)"

definition preserves :: "fields \<Rightarrow> DailyLog \<Rightarrow> DailyLog \<Rightarrow> bool" where
  "preserves data x x' =
     (log_id x' = log_id x \<and>
      \<not> cleared (log_value_bool x) (log_value_bool x') \<and>
      \<not> cleared (log_value_number x) (log_value_number x') \<and>
      \<not> cleared (log_note x) (log_note x') \<and>
      (not_given data ''value_bool'' \<longrightarrow> log_value_bool x' = log_value_bool x) \<and>
      (not_given data ''value_number'' \<longrightarrow> log_value_number x' = log_value_number x) \<and>
      (not_given data ''note'' \<longrightarrow> log_note x' = log_note x))"

text \<open>A number that JSON cannot write: \<^verbatim>\<open>NaN\<close> or an infinity.\<close>

fun non_finite :: "jsval \<Rightarrow> bool" where
  "non_finite (JNum (Finite x)) = False"
| "non_finite (JNum n) = True"
| "non_finite v = False"

definition example_log :: "string \<Rightarrow> string \<Rightarrow> DailyLog" where
  "example_log ident taskId =
     \<lparr>log_id = ident, log_task = taskId, log_date = ''2024-01-15T00:00:00.000Z'',
      log_value_bool = Some False, log_value_number = Some (Finite 7), log_note = Some ''ran'',
      log_user = ''u1'', log_created = ''2024-01-15 08:00:00.000Z'',
      log_updated = ''2024-01-15 08:00:00.000Z''\<rparr>"

definition not_authenticated :: thrown where
  "not_authenticated = Error ''User is not authenticated. Please sign in.''"

subsection \<open>Runs of cancelled queries and stores that honour filters\<close>

text \<open>
  \<open>cancels C flt n s\<close>: the store, from state \<open>s\<close>, answers \<open>n\<close> queries in a row
  with a cancellation; the result holds the errors and the state reached.
\<close>

fun cancels ::
  "('s, DailyLog) collection \<Rightarrow> cond list \<Rightarrow> nat \<Rightarrow> 's \<Rightarrow> (pb_error list \<times> 's) option" where
  "cancels C flt 0 s = Some ([], s)"
| "cancels C flt (Suc n) s =
     (case c_getList C 1 10 flt [] s of
        (Inl e, s1) \<Rightarrow>
          if autocancelled (err_message e)
          then map_option (\<lambda>(es, s'). (e # es, s')) (cancels C flt n s1)
          else None
      | (Inr items, s1) \<Rightarrow> None)"

definition probe_event :: "cond list \<Rightarrow> pb_error \<Rightarrow> DailyLog event" where
  "probe_event flt e = (GetList ''daily_logs'' 1 10 flt [], Inl e)"

text \<open>The delays before the attempts \<open>a + 1\<close>, ..., \<open>a + k\<close>: 200 times the attempt number.\<close>

definition backoff :: "nat \<Rightarrow> nat \<Rightarrow> nat list" where
  "backoff a k = map (\<lambda>i. 200 * (i + 1)) [a..<a + k]"

text \<open>A store honours filters when every record of a page satisfies the filter of the query.\<close>

definition honors :: "('s, DailyLog) collection \<Rightarrow> bool" where
  "honors C =
     (\<forall>page perPage flt srt s items s'.
        c_getList C page perPage flt srt s = (Inr items, s') \<longrightarrow> list_all (sat flt) items)"

subsection \<open>Observations on the events of a call\<close>

text \<open>
  \<open>extends env env' evs\<close>: the call that led from \<open>env\<close> to \<open>env'\<close> added the events
  \<open>evs\<close> to the trace, only added to the delays and to the console, and left the
  authentication store alone.
\<close>

definition extends :: "('s, 'r) env \<Rightarrow> ('s, 'r) env \<Rightarrow> 'r event list \<Rightarrow> bool" where
  "extends env env' evs =
     (trace env' = trace env @ evs \<and> authValid env' = authValid env \<and>
      authModel env' = authModel env \<and>
      (\<exists>ss. sleeps env' = sleeps env @ ss) \<and> (\<exists>cs. console env' = console env @ cs))"

text \<open>A query with the given filter that was answered with a record of the given day.\<close>

fun probe_hit :: "cond list \<Rightarrow> string \<Rightarrow> DailyLog event \<Rightarrow> bool" where
  "probe_hit flt nd (GetList c page perPage f srt, Inr (Items items)) =
     (f = flt \<and> list_ex (\<lambda>l. normalizeDate (log_date l) = nd) items)"
| "probe_hit flt nd ev = False"

text \<open>A create request for the daily logs with the given data, whatever the answer.\<close>

definition create_sent :: "fields \<Rightarrow> DailyLog event \<Rightarrow> bool" where
  "create_sent data ev = (fst ev = Create ''daily_logs'' data)"

text \<open>
  The filter of the query that \<open>getDailyLogByTaskAndDate\<close> sends for a user, a task and
  a date.
\<close>

definition probe_query_filter :: "platform \<Rightarrow> string \<Rightarrow> string \<Rightarrow> string \<Rightarrow> cond list" where
  "probe_query_filter P userId taskId date =
     probe_filter userId taskId (normalizeDate date)
       (case nextDateStr P (normalizeDate date) of Some n \<Rightarrow> n | None \<Rightarrow> [])"

text \<open>
  What a run of probes has been seen to do: it added at most \<open>n\<close> events, all of them
  queries, and printed nothing; a record it found was retrieved by a query with the
  filter \<open>flt\<close>, has the day \<open>nd\<close> and, when the store honours filters (\<open>hon\<close>),
  satisfies the filter; when it found none, no query retrieved a record of the day.
\<close>

definition probe_obs ::
  "bool \<Rightarrow> cond list \<Rightarrow> string \<Rightarrow> nat \<Rightarrow> ('s, DailyLog) env \<Rightarrow> ('s, DailyLog) env \<Rightarrow>
   (thrown + DailyLog option) \<Rightarrow> DailyLog event list \<Rightarrow> bool" where
  "probe_obs hon flt nd n env env' res evs =
     (extends env env' evs \<and> console env' = console env \<and> list_all is_query evs \<and>
      length evs \<le> n \<and>
      (\<forall>l. res = Inr (Some l) \<longrightarrow>
         list_ex (probe_hit flt nd) evs \<and> l \<in> set (retrieved evs) \<and>
         normalizeDate (log_date l) = nd \<and> (hon \<longrightarrow> sat flt l)) \<and>
      ((\<forall>l. res \<noteq> Inr (Some l)) \<longrightarrow>
         (\<forall>l \<in> set (retrieved evs). normalizeDate (log_date l) \<noteq> nd)))"



text \<open>
  A create request rejected for a reason other than uniqueness: the task of the log is
  not a record of the store (status 400, with error data on the field).
\<close>

definition missing_relation_error :: pb_error where
  "missing_relation_error =
     \<lparr>err_status = 400, err_message = ''Failed to create record.'',
      err_string = ''ClientResponseError 400: Failed to create record.'',
      err_response_data = None,
      err_data = Some \<lparr>p_message = ''Failed to create record.'',
                       p_data = Some (DataObject
                         [(''task'', DObj \<lparr>fe_code = ''validation_missing_rel_records'',
                              fe_message = ''Failed to find all relation records with the provided ids.''\<rparr>)])\<rparr>\<rparr>"

text \<open>
  Three tasks without logs; the seventh request, which is the create request for the
  second task, fails with the given error.
\<close>

definition three_tasks :: "Task list" where
  "three_tasks = [example_task ''A'', example_task ''B'', example_task ''C'']"

definition failing_env :: "pb_error \<Rightarrow> (pb_state, DailyLog) env" where
  "failing_env e =
     signed_in (empty_store\<lparr>st_script := [None, None, None, None, None, None, Some e]\<rparr>)"

definition created_log :: "string \<Rightarrow> string \<Rightarrow> DailyLog" where
  "created_log ident taskId =
     \<lparr>log_id = ident, log_task = taskId, log_date = ''2024-01-15T00:00:00.000Z'',
      log_value_bool = Some False, log_value_number = None, log_note = None,
      log_user = ''u1'', log_created = ''2024-01-15 08:00:00.000Z'',
      log_updated = ''2024-01-15 08:00:00.000Z''\<rparr>"

text \<open>
  A task has been attempted in a run of events when a probe for it retrieved a log of
  the day or a create request for its log was sent. The failures of a run are logged
  when every create request that failed with an error that \<open>ensure_skips\<close> does not
  skip has its warning on the console.
\<close>

definition attempted ::
  "platform \<Rightarrow> string \<Rightarrow> string \<Rightarrow> string \<Rightarrow> string \<Rightarrow> DailyLog event list \<Rightarrow> bool" where
  "attempted P userId nd isoDate taskId evs =
     (list_ex (probe_hit (probe_query_filter P userId taskId nd) nd) evs \<or>
      list_ex (create_sent (logData taskId isoDate userId)) evs)"

definition failures_logged ::
  "string \<Rightarrow> string \<Rightarrow> DailyLog event list \<Rightarrow> string list \<Rightarrow> bool" where
  "failures_logged userId isoDate evs cons =
     (\<forall>taskId e.
        (Create ''daily_logs'' (logData taskId isoDate userId), Inl e) \<in> set evs \<and>
        \<not> ensure_skips (StoreError e) \<longrightarrow> warning_line taskId \<in> set cons)"

section \<open>Properties of the Date Normalizer\<close>

lemma normalizeDate_no_T: "CHR ''T'' \<notin> set date \<Longrightarrow> normalizeDate date = date"
  by (simp add: normalizeDate_def)


lemma normalizeDate_result_no_T: "CHR ''T'' \<notin> set (normalizeDate date)"
proof (cases "CHR ''T'' \<in> set date")
  case True
  have "CHR ''T'' \<notin> set (takeWhile (\<lambda>c. c \<noteq> CHR ''T'') date)"
    using set_takeWhileD by fastforce
  with True show ?thesis by (simp add: normalizeDate_def)
next
  case False
  then show ?thesis by (simp add: normalizeDate_def)
qed





lemma lex_less:
  assumes "b < 10" "b' < 10"
  shows "(10 * a + b < 10 * a' + b') = (a < a' \<or> (a = a' \<and> b < (b'::nat)))"
proof (cases "a < a'")
  case True
  then have "10 * a + 10 \<le> 10 * a'" by simp
  with assms True show ?thesis by linarith
next
  case False
  show ?thesis
  proof (cases "a = a'")
    case True
    then show ?thesis by simp
  next
    case ne: False
    with False have "10 * a' + 10 \<le> 10 * a" by simp
    with assms False ne show ?thesis by linarith
  qed
qed









text \<open>
  C8. Normalizing twice is the same as normalizing once, for every string; and two
  timestamps with the same part before the \<^verbatim>\<open>T\<close> (they differ only in the time of
  day) normalize to the same key.
\<close>

theorem normalizeDate_idempotent_same_day:
  "normalizeDate (normalizeDate x) = normalizeDate x \<and>
   normalizeDate (d @ CHR ''T'' # t1) = normalizeDate (d @ CHR ''T'' # t2)"
proof
  show "normalizeDate (normalizeDate x) = normalizeDate x"
    by (rule normalizeDate_no_T) (rule normalizeDate_result_no_T)
next
  have "takeWhile (\<lambda>c. c \<noteq> CHR ''T'') (d @ CHR ''T'' # t) = takeWhile (\<lambda>c. c \<noteq> CHR ''T'') d" for t
    by (induction d) auto
  then show "normalizeDate (d @ CHR ''T'' # t1) = normalizeDate (d @ CHR ''T'' # t2)"
    by (simp add: normalizeDate_def)
qed

section \<open>Properties of the Mutation Applier\<close>

lemma cleanData_eq:
  "cleanData data =
     (if get_prop data ''value_bool'' \<noteq> JUndefined \<and> get_prop data ''value_bool'' \<noteq> JNull
      then [(''value_bool'', get_prop data ''value_bool'')] else []) @
     (if get_prop data ''value_number'' \<noteq> JUndefined \<and> get_prop data ''value_number'' \<noteq> JNull
      then [(''value_number'', get_prop data ''value_number'')] else []) @
     (if get_prop data ''note'' \<noteq> JUndefined \<and> get_prop data ''note'' \<noteq> JNull \<and>
         get_prop data ''note'' \<noteq> JStr []
      then [(''note'', get_prop data ''note'')] else [])"
  by (simp add: cleanData_def copy_provided_def Let_def)

lemma cleanData_sound:
  "(k, v) \<in> set (cleanData data) \<Longrightarrow> get_prop data k = v \<and> v \<noteq> JUndefined \<and> v \<noteq> JNull"
  by (auto simp: cleanData_eq split: if_splits)

lemma cleanData_map_of:
  "map_of (cleanData data) k =
     (if (k = ''value_bool'' \<or> k = ''value_number'') \<and>
         get_prop data k \<noteq> JUndefined \<and> get_prop data k \<noteq> JNull
      then Some (get_prop data k)
      else if k = ''note'' \<and> get_prop data k \<noteq> JUndefined \<and> get_prop data k \<noteq> JNull \<and>
              get_prop data k \<noteq> JStr []
      then Some (get_prop data k)
      else None)"
  by (simp add: cleanData_eq)

lemma json_body_append [simp]: "json_body (xs @ ys) = json_body xs @ json_body ys"
  by (induction xs) (auto split: option.splits)

lemma json_body_single:
  "json_body [(k, v)] = (case json_value v of None \<Rightarrow> [] | Some w \<Rightarrow> [(k, w)])"
  by (simp split: option.splits)

text \<open>The body of an update: the value of each key of \<open>cleanData\<close>, written as JSON.\<close>

lemma body_map_of:
  "map_of (json_body (cleanData data)) k =
     (case map_of (cleanData data) k of None \<Rightarrow> None | Some v \<Rightarrow> json_value v)"
  by (simp add: cleanData_eq split: option.splits)

lemma json_value_cases:
  "json_value v = (if v = JUndefined then None else if non_finite v then Some JNull else Some v)"
  by (cases v rule: json_value.cases) simp_all

lemma log_id_patch [simp]: "log_id (patch data l) = log_id l"
  by (simp add: patch_def)

lemma find_patched:
  "find (\<lambda>x. log_id x = ident) (map (\<lambda>x. if log_id x = ident then patch data x else x) xs) =
   map_option (patch data) (find (\<lambda>x. log_id x = ident) xs)"
  by (induction xs) auto

lemma patch_value_number:
  "log_value_number (patch (json_body (cleanData data)) l) =
     (if non_finite (get_prop data ''value_number'') then None
      else case get_prop data ''value_number'' of JNum n \<Rightarrow> Some n | _ \<Rightarrow> log_value_number l)"
  by (simp add: patch_def body_map_of cleanData_map_of json_value_cases split: jsval.splits)

lemma patch_value_bool:
  "log_value_bool (patch (json_body (cleanData data)) l) =
     (if non_finite (get_prop data ''value_bool'') then None
      else case get_prop data ''value_bool'' of JBool b \<Rightarrow> Some b | _ \<Rightarrow> log_value_bool l)"
  by (simp add: patch_def body_map_of cleanData_map_of json_value_cases split: jsval.splits)

lemma patch_note:
  "log_note (patch (json_body (cleanData data)) l) =
     (if non_finite (get_prop data ''note'') then None
      else case get_prop data ''note'' of
             JStr n \<Rightarrow> if n = [] then log_note l else Some n
           | _ \<Rightarrow> log_note l)"
  by (simp add: patch_def body_map_of cleanData_map_of json_value_cases split: jsval.splits)

lemma patch_frame:
  "log_task (patch data l) = log_task l \<and> log_date (patch data l) = log_date l \<and>
   log_user (patch data l) = log_user l \<and> log_created (patch data l) = log_created l"
  by (simp add: patch_def)

lemma updateDailyLog_ref:
  assumes "ensureAuthenticated env = None" and "st_script (store env) = []"
    and "find (\<lambda>x. log_id x = logId) (st_logs (store env)) = Some l"
  shows "updateDailyLog daily_logs logId data env =
     (Inr (patch (json_body (cleanData data)) l),
      env\<lparr>store := (store env)\<lparr>st_logs :=
               map (\<lambda>x. if log_id x = logId then patch (json_body (cleanData data)) x else x)
                 (st_logs (store env))\<rparr>,
          trace := trace env @
            [(Update ''daily_logs'' logId (cleanData data),
              Inr (Item (patch (json_body (cleanData data)) l)))]\<rparr>)"
  using assms
  by (simp add: updateDailyLog_def call_def daily_logs_def ref_update_def)

lemma updateDailyLog_request:
  assumes "ensureAuthenticated env = None"
  shows "map fst (events_since env (snd (updateDailyLog C logId data env))) =
           [Update ''daily_logs'' logId (cleanData data)]"
  using assms
  by (auto simp: updateDailyLog_def call_def events_since_def split: prod.splits sum.splits)

text \<open>
  C6. An update sends one request, whose payload is \<open>cleanData\<close> of the input: every
  key of the payload is a key of the input with the same value, and that value is
  neither \<^verbatim>\<open>undefined\<close> nor \<^verbatim>\<open>null\<close>. On the reference store the record of the
  given identity keeps every field that the input omits, and its task, date and
  user; with only \<^verbatim>\<open>{value_bool: true}\<close> the stored \<^verbatim>\<open>value_number\<close> is unchanged.
\<close>

theorem updateDailyLog_sparse_update:
  assumes "ensureAuthenticated env = None" and "st_script (store env) = []"
    and "find (\<lambda>x. log_id x = logId) (st_logs (store env)) = Some l"
    and "ensureAuthenticated env2 = None"
  shows "\<exists>l' env'. updateDailyLog daily_logs logId data env = (Inr l', env') \<and>
      events_since env env' = [(Update ''daily_logs'' logId (cleanData data), Inr (Item l'))] \<and>
      find (\<lambda>x. log_id x = logId) (st_logs (store env')) = Some l' \<and>
      (get_prop data ''value_bool'' = JUndefined \<longrightarrow> log_value_bool l' = log_value_bool l) \<and>
      (get_prop data ''value_number'' = JUndefined \<longrightarrow> log_value_number l' = log_value_number l) \<and>
      (get_prop data ''note'' = JUndefined \<longrightarrow> log_note l' = log_note l) \<and>
      (data = [(''value_bool'', JBool True)] \<longrightarrow>
         log_value_bool l' = Some True \<and> log_value_number l' = log_value_number l) \<and>
      log_task l' = log_task l \<and> log_date l' = log_date l \<and> log_user l' = log_user l \<and>
      (\<forall>(k, v) \<in> set (cleanData data). get_prop data k = v \<and> v \<noteq> JUndefined \<and> v \<noteq> JNull) \<and>
      map fst (events_since env2 (snd (updateDailyLog C logId data env2))) =
        [Update ''daily_logs'' logId (cleanData data)]"
proof -
  let ?l' = "patch (json_body (cleanData data)) l"
  note run = updateDailyLog_ref [OF assms(1-3), of data]
  have ev: "events_since env (snd (updateDailyLog daily_logs logId data env)) =
      [(Update ''daily_logs'' logId (cleanData data), Inr (Item ?l'))]"
    by (simp add: run events_since_def)
  have st: "find (\<lambda>x. log_id x = logId)
      (st_logs (store (snd (updateDailyLog daily_logs logId data env)))) = Some ?l'"
    by (simp add: run find_patched assms(3))
  have omitted:
    "get_prop data ''value_bool'' = JUndefined \<longrightarrow> log_value_bool ?l' = log_value_bool l"
    "get_prop data ''value_number'' = JUndefined \<longrightarrow> log_value_number ?l' = log_value_number l"
    "get_prop data ''note'' = JUndefined \<longrightarrow> log_note ?l' = log_note l"
    by (simp_all add: patch_value_bool patch_value_number patch_note)
  have only: "data = [(''value_bool'', JBool True)] \<longrightarrow>
      log_value_bool ?l' = Some True \<and> log_value_number ?l' = log_value_number l"
    by (simp add: patch_value_bool patch_value_number get_prop_def)
  have payload:
    "\<forall>(k, v) \<in> set (cleanData data). get_prop data k = v \<and> v \<noteq> JUndefined \<and> v \<noteq> JNull"
    using cleanData_sound by blast
  from run ev st omitted only payload patch_frame [of "json_body (cleanData data)" l]
    updateDailyLog_request [OF assms(4), of C logId data]
  show ?thesis by simp
qed

theorem updateDailyLog_sparse_update_witness:
  "\<exists>l' env'. updateDailyLog daily_logs ''r1'' [(''value_bool'', JBool True)]
        (signed_in (empty_store\<lparr>st_logs := [example_log ''r1'' ''A'']\<rparr>)) = (Inr l', env') \<and>
     log_value_bool l' = Some True \<and> log_value_number l' = Some (Finite 7) \<and>
     log_note l' = Some ''ran''"
proof -
  let ?env = "signed_in (empty_store\<lparr>st_logs := [example_log ''r1'' ''A'']\<rparr>) :: (pb_state, DailyLog) env"
  have a: "ensureAuthenticated ?env = None" "st_script (store ?env) = []"
    "find (\<lambda>x. log_id x = ''r1'') (st_logs (store ?env)) = Some (example_log ''r1'' ''A'')"
    by (simp_all add: ensureAuthenticated_def signed_in_def empty_store_def example_log_def)
  from updateDailyLog_sparse_update [OF a a(1), of "[(''value_bool'', JBool True)]" daily_logs]
  show ?thesis by (auto simp: get_prop_def example_log_def)
qed

text \<open>
  What does hold of stored fields: when none of the three fields of the input is
  \<^verbatim>\<open>NaN\<close> or an infinity, every record of the reference store keeps the fields that
  were not given, and no stored field that had a value is left without one.
\<close>

lemma preserves_patch:
  assumes "\<not> non_finite (get_prop data ''value_bool'')"
    "\<not> non_finite (get_prop data ''value_number'')" "\<not> non_finite (get_prop data ''note'')"
  shows "preserves data x (patch (json_body (cleanData data)) x)"
  using assms
  by (auto simp: preserves_def cleared_def not_given_def patch_value_bool patch_value_number
        patch_note split: jsval.splits)

lemma preserves_refl: "preserves data x x"
  by (auto simp: preserves_def cleared_def)

lemma updateDailyLog_store:
  "st_logs (store (snd (updateDailyLog daily_logs logId data env))) = st_logs (store env) \<or>
   st_logs (store (snd (updateDailyLog daily_logs logId data env))) =
     map (\<lambda>x. if log_id x = logId then patch (json_body (cleanData data)) x else x)
       (st_logs (store env))"
  by (auto simp: updateDailyLog_def call_def daily_logs_def ref_update_def
        split: option.splits list.splits prod.splits sum.splits)

lemma updateDailyLog_keeps_finite:
  assumes "\<not> non_finite (get_prop data ''value_bool'')"
    "\<not> non_finite (get_prop data ''value_number'')" "\<not> non_finite (get_prop data ''note'')"
  shows "list_all2 (preserves data) (st_logs (store env))
     (st_logs (store (snd (updateDailyLog daily_logs logId data env))))"
proof -
  have "list_all2 (preserves data) xs
     (map (\<lambda>x. if log_id x = logId then patch (json_body (cleanData data)) x else x) xs)" for xs
    by (induction xs) (simp_all add: preserves_patch [OF assms] preserves_refl)
  then show ?thesis
    using updateDailyLog_store [of logId data env]
    by (auto simp: list.rel_refl preserves_refl)
qed


section \<open>Authentication guard of the exported operations\<close>

lemma ensureAuthenticated_fails:
  "\<not> authValid env \<or> \<not> authModel env \<Longrightarrow> ensureAuthenticated env = Some not_authenticated"
  by (auto simp: ensureAuthenticated_def not_authenticated_def)

text \<open>
  C10. When the authentication store is invalid or has no user model, each of the
  twelve exported operations throws \<^verbatim>\<open>User is not authenticated. Please sign in.\<close>
  and leaves the environment as it was: no request has been sent to the store,
  whatever the store is.
\<close>

theorem unauthenticated_is_rejected:
  assumes "\<not> authValid envT \<or> \<not> authModel envT"
    and "\<not> authValid envL \<or> \<not> authModel envL"
    and "\<not> authValid envG \<or> \<not> authModel envG"
  shows "getTasks CT userId type envT = (Inl not_authenticated, envT) \<and>
         createTask CT data envT = (Inl not_authenticated, envT) \<and>
         updateTask CT ident data envT = (Inl not_authenticated, envT) \<and>
         deleteTask CT ident envT = (Inl not_authenticated, envT) \<and>
         getDailyLogs CL P userId taskId date envL = (Inl not_authenticated, envL) \<and>
         getDailyLogByTaskAndDate CL P userId task day envL = (Inl not_authenticated, envL) \<and>
         ensureDailyLogsExist CL P userId tasks day envL = (Inl not_authenticated, envL) \<and>
         createDailyLogIfNeeded CL P userId task day envL = (Inl not_authenticated, envL) \<and>
         updateDailyLog CL ident data envL = (Inl not_authenticated, envL) \<and>
         deleteDailyLog CL ident envL = (Inl not_authenticated, envL) \<and>
         getGoalProgress CG userId taskId envG = (Inl not_authenticated, envG) \<and>
         createOrUpdateGoalProgress CG P data envG = (Inl not_authenticated, envG)"
proof -
  note t = ensureAuthenticated_fails [OF assms(1)]
  note l = ensureAuthenticated_fails [OF assms(2)]
  note g = ensureAuthenticated_fails [OF assms(3)]
  have "getTasks CT userId type envT = (Inl not_authenticated, envT)"
    by (simp add: getTasks_def t)
  moreover have "createTask CT data envT = (Inl not_authenticated, envT)"
    by (simp add: createTask_def t)
  moreover have "updateTask CT ident data envT = (Inl not_authenticated, envT)"
    by (simp add: updateTask_def t)
  moreover have "deleteTask CT ident envT = (Inl not_authenticated, envT)"
    by (simp add: deleteTask_def t)
  moreover have "getDailyLogs CL P userId taskId date envL = (Inl not_authenticated, envL)"
    by (simp add: getDailyLogs_def l)
  moreover have "getDailyLogByTaskAndDate CL P userId task day envL = (Inl not_authenticated, envL)"
    by (simp add: getDailyLogByTaskAndDate_def l)
  moreover have "ensureDailyLogsExist CL P userId tasks day envL = (Inl not_authenticated, envL)"
    by (simp add: ensureDailyLogsExist_def l)
  moreover have "createDailyLogIfNeeded CL P userId task day envL = (Inl not_authenticated, envL)"
    by (simp add: createDailyLogIfNeeded_def l)
  moreover have "updateDailyLog CL ident data envL = (Inl not_authenticated, envL)"
    by (simp add: updateDailyLog_def l)
  moreover have "deleteDailyLog CL ident envL = (Inl not_authenticated, envL)"
    by (simp add: deleteDailyLog_def l)
  moreover have "getGoalProgress CG userId taskId envG = (Inl not_authenticated, envG)"
    by (simp add: getGoalProgress_def g)
  moreover have "createOrUpdateGoalProgress CG P data envG = (Inl not_authenticated, envG)"
    by (simp add: createOrUpdateGoalProgress_def g)
  ultimately show ?thesis by blast
qed

theorem unauthenticated_is_rejected_witness:
  "fst (ensureDailyLogsExist daily_logs example_platform ''u1'' [example_task ''A''] ''2024-01-15''
          (signed_out empty_store)) = Inl (Error ''User is not authenticated. Please sign in.'') \<and>
   trace (snd (ensureDailyLogsExist daily_logs example_platform ''u1'' [example_task ''A'']
          ''2024-01-15'' (signed_out empty_store))) = [] \<and>
   fst (getTasks unreachable ''u1'' None (signed_out ())) =
     Inl (Error ''User is not authenticated. Please sign in.'') \<and>
   fst (getGoalProgress unreachable ''u1'' None (signed_out ())) =
     Inl (Error ''User is not authenticated. Please sign in.'')"
proof -
  have a: "\<not> authValid (signed_out s) \<or> \<not> authModel (signed_out s)" for s :: 's
    by (simp add: signed_out_def)
  from unauthenticated_is_rejected
    [OF a [of "()"] a [of empty_store] a [of "()"],
     where CT = unreachable and CL = daily_logs and CG = unreachable and P = example_platform
       and userId = "''u1''" and type = None and taskId = None and day = "''2024-01-15''"
       and tasks = "[example_task ''A'']"]
  show ?thesis by (simp add: not_authenticated_def signed_out_def)
qed

section \<open>Properties of the Existence Prober\<close>

declare getDailyLogByTaskAndDate_loop.simps [simp del]

lemma loop_after_cancels:
  "cancels C flt k (store env) = Some (es, sk) \<Longrightarrow> a + k < 3 \<Longrightarrow>
   getDailyLogByTaskAndDate_loop C flt nd a env =
   getDailyLogByTaskAndDate_loop C flt nd (a + k)
     (env\<lparr>store := sk, trace := trace env @ map (probe_event flt) es,
          sleeps := sleeps env @ backoff a k\<rparr>)"
proof (induction k arbitrary: a env es)
  case 0
  then show ?case by (auto simp: backoff_def)
next
  case (Suc k)
  from Suc.prems(1) obtain e s1 es' where
    first: "c_getList C 1 10 flt [] (store env) = (Inl e, s1)" "autocancelled (err_message e)" and
    rest: "cancels C flt k s1 = Some (es', sk)" and es: "es = e # es'"
    by (auto split: prod.splits sum.splits if_splits)
  let ?env1 = "sleep (200 * (a + 1)) (env\<lparr>store := s1, trace := trace env @ [probe_event flt e]\<rparr>)"
  from Suc.prems(2) have a: "a < 2" "a < 3" "Suc a + k < 3" by simp_all
  have step: "getDailyLogByTaskAndDate_loop C flt nd a env =
      getDailyLogByTaskAndDate_loop C flt nd (Suc a) ?env1"
    using first a
    by (subst getDailyLogByTaskAndDate_loop.simps) (simp add: call_def probe_event_def)
  have "cancels C flt k (store ?env1) = Some (es', sk)"
    using rest by (simp add: sleep_def)
  from Suc.IH [OF this a(3), of ] have
    "getDailyLogByTaskAndDate_loop C flt nd (Suc a) ?env1 =
     getDailyLogByTaskAndDate_loop C flt nd (Suc a + k)
       (?env1\<lparr>store := sk, trace := trace ?env1 @ map (probe_event flt) es',
          sleeps := sleeps ?env1 @ backoff (Suc a) k\<rparr>)" .
  moreover have "?env1\<lparr>store := sk, trace := trace ?env1 @ map (probe_event flt) es',
          sleeps := sleeps ?env1 @ backoff (Suc a) k\<rparr> =
      env\<lparr>store := sk, trace := trace env @ map (probe_event flt) es,
          sleeps := sleeps env @ backoff a (Suc k)\<rparr>"
    by (simp add: sleep_def es backoff_def upt_rec [of a])
  ultimately show ?case using step by simp
qed

lemma loop_last_cancel:
  assumes "c_getList C 1 10 flt [] (store env) = (Inl e, s1)" "autocancelled (err_message e)"
  shows "getDailyLogByTaskAndDate_loop C flt nd 2 env =
     (Inr None, env\<lparr>store := s1, trace := trace env @ [probe_event flt e]\<rparr>)"
  using assms
  by (subst getDailyLogByTaskAndDate_loop.simps) (simp add: call_def probe_event_def)

lemma loop_error:
  assumes "a < 3" "c_getList C 1 10 flt [] (store env) = (Inl e, s1)"
    "\<not> autocancelled (err_message e)"
  shows "getDailyLogByTaskAndDate_loop C flt nd a env =
     (Inl (fetch_error ''daily_logs'' ''daily log'' e),
      env\<lparr>store := s1, trace := trace env @ [probe_event flt e]\<rparr>)"
  using assms
  by (subst getDailyLogByTaskAndDate_loop.simps) (simp add: call_def probe_event_def)

lemma cancels_Suc_last:
  "cancels C flt (Suc k) s = Some (es, s') \<Longrightarrow>
   \<exists>es0 sk e. cancels C flt k s = Some (es0, sk) \<and> c_getList C 1 10 flt [] sk = (Inl e, s') \<and>
      autocancelled (err_message e) \<and> es = es0 @ [e]"
proof (induction k arbitrary: s es)
  case 0
  then show ?case by (auto split: prod.splits sum.splits if_splits)
next
  case (Suc k)
  from Suc.prems obtain e1 s1 es1 where
    first: "c_getList C 1 10 flt [] s = (Inl e1, s1)" "autocancelled (err_message e1)" and
    rest: "cancels C flt (Suc k) s1 = Some (es1, s')" and es: "es = e1 # es1"
    by (auto split: prod.splits sum.splits if_splits)
  from Suc.IH [OF rest] obtain es0 sk e where
    ih: "cancels C flt k s1 = Some (es0, sk)" "c_getList C 1 10 flt [] sk = (Inl e, s')"
      "autocancelled (err_message e)" "es1 = es0 @ [e]"
    by blast
  have "cancels C flt (Suc k) s = Some (e1 # es0, sk)"
    using first ih(1) by simp
  with ih es show ?case by auto
qed

text \<open>
  C4. With a signed-in user and a day the platform accepts: when the store cancels
  three queries in a row, \<open>getDailyLogByTaskAndDate\<close> has sent exactly these three,
  has waited 200 and then 400 milliseconds between them, and returns \<^verbatim>\<open>null\<close>
  without raising. When, after \<open>k < 3\<close> cancellations (and the delays 200 times the
  attempt number), the store answers with status 403 or 400, the error is thrown at
  once: that query is the last request and no further delay is awaited.
\<close>

theorem getDailyLogByTaskAndDate_failure_policy:
  assumes "ensureAuthenticated env = None" and "ensureAuthenticated env2 = None"
    and "nextDateStr P (normalizeDate date) = Some next"
    and "flt = probe_filter userId taskId (normalizeDate date) next"
  shows
   "(cancels C flt 3 (store env) = Some (es, s3) \<longrightarrow>
       getDailyLogByTaskAndDate C P userId taskId date env =
         (Inr None,
          env\<lparr>store := s3, trace := trace env @ map (probe_event flt) es,
              sleeps := sleeps env @ [200, 400]\<rparr>)) \<and>
    (k < 3 \<and> cancels C flt k (store env2) = Some (es2, sk) \<and>
     c_getList C 1 10 flt [] sk = (Inl e, s') \<and> \<not> autocancelled (err_message e) \<and>
     (err_status e = 403 \<or> err_status e = 400) \<longrightarrow>
       getDailyLogByTaskAndDate C P userId taskId date env2 =
         (Inl (if err_status e = 400
               then Error (''Invalid filter syntax: '' @ message_or_error e @
                      ''. Please check that the fields exist in the daily_logs collection.'')
               else Error access_denied),
          env2\<lparr>store := s', trace := trace env2 @ map (probe_event flt) es2 @ [probe_event flt e],
               sleeps := sleeps env2 @ backoff 0 k\<rparr>))"
proof (intro conjI impI)
  assume c: "cancels C flt 3 (store env) = Some (es, s3)"
  then have "cancels C flt (Suc 2) (store env) = Some (es, s3)" by (simp add: numeral_3_eq_3)
  from cancels_Suc_last [OF this] obtain es0 s2 e3 where
    two: "cancels C flt 2 (store env) = Some (es0, s2)" and
    third: "c_getList C 1 10 flt [] s2 = (Inl e3, s3)" "autocancelled (err_message e3)" and
    es: "es = es0 @ [e3]"
    by blast
  let ?env2 = "env\<lparr>store := s2, trace := trace env @ map (probe_event flt) es0,
          sleeps := sleeps env @ backoff 0 2\<rparr>"
  have lt: "(0::nat) + 2 < 3" by simp
  have "getDailyLogByTaskAndDate_loop C flt (normalizeDate date) 0 env =
        getDailyLogByTaskAndDate_loop C flt (normalizeDate date) 2 ?env2"
    using loop_after_cancels [OF two lt, of "normalizeDate date"] by (simp only: add_0_left)
  also have "\<dots> = (Inr None, ?env2\<lparr>store := s3, trace := trace ?env2 @ [probe_event flt e3]\<rparr>)"
    using third by (intro loop_last_cancel) simp_all
  finally show "getDailyLogByTaskAndDate C P userId taskId date env =
         (Inr None,
          env\<lparr>store := s3, trace := trace env @ map (probe_event flt) es,
              sleeps := sleeps env @ [200, 400]\<rparr>)"
    using assms by (simp add: getDailyLogByTaskAndDate_def es backoff_def upt_rec [of 0] upt_rec [of 1] numeral_2_eq_2)
next
  assume h: "k < 3 \<and> cancels C flt k (store env2) = Some (es2, sk) \<and>
     c_getList C 1 10 flt [] sk = (Inl e, s') \<and> \<not> autocancelled (err_message e) \<and>
     (err_status e = 403 \<or> err_status e = 400)"
  let ?envk = "env2\<lparr>store := sk, trace := trace env2 @ map (probe_event flt) es2,
          sleeps := sleeps env2 @ backoff 0 k\<rparr>"
  from h have ck: "cancels C flt k (store env2) = Some (es2, sk)" and lk: "0 + k < 3"
    by simp_all
  have "getDailyLogByTaskAndDate_loop C flt (normalizeDate date) 0 env2 =
        getDailyLogByTaskAndDate_loop C flt (normalizeDate date) k ?envk"
    using loop_after_cancels [OF ck lk, of "normalizeDate date"] by (simp only: add_0_left)
  also have "\<dots> = (Inl (fetch_error ''daily_logs'' ''daily log'' e),
      ?envk\<lparr>store := s', trace := trace ?envk @ [probe_event flt e]\<rparr>)"
    using h by (intro loop_error) simp_all
  finally show "getDailyLogByTaskAndDate C P userId taskId date env2 =
         (Inl (if err_status e = 400
               then Error (''Invalid filter syntax: '' @ message_or_error e @
                      ''. Please check that the fields exist in the daily_logs collection.'')
               else Error access_denied),
          env2\<lparr>store := s', trace := trace env2 @ map (probe_event flt) es2 @ [probe_event flt e],
               sleeps := sleeps env2 @ backoff 0 k\<rparr>)"
    using assms h by (auto simp: getDailyLogByTaskAndDate_def fetch_error_def)
qed


lemma cancelled_error_autocancelled: "autocancelled (err_message cancelled_error)"
  by (simp add: autocancelled_def cancelled_error_def)

lemma plain_error_not_autocancelled: "\<not> autocancelled (err_message (plain_error 403 ''Forbidden''))"
  by (simp add: autocancelled_def plain_error_def)

lemma example_next: "nextDateStr example_platform (normalizeDate ''2024-01-15'') = Some ''2024-01-16''"
  by (simp add: nextDateStr_def example_platform_def normalizeDate_def)

theorem getDailyLogByTaskAndDate_failure_policy_witness:
  "getDailyLogByTaskAndDate daily_logs example_platform ''u1'' ''A'' ''2024-01-15''
     (signed_in (empty_store\<lparr>st_script := [Some cancelled_error, Some cancelled_error, Some cancelled_error]\<rparr>)) =
   (Inr None,
    (signed_in (empty_store\<lparr>st_script := [Some cancelled_error, Some cancelled_error, Some cancelled_error]\<rparr>))
      \<lparr>store := empty_store,
       trace := map (probe_event (probe_filter ''u1'' ''A'' ''2024-01-15'' ''2024-01-16''))
                  [cancelled_error, cancelled_error, cancelled_error],
       sleeps := [200, 400]\<rparr>) \<and>
   getDailyLogByTaskAndDate daily_logs example_platform ''u1'' ''A'' ''2024-01-15''
     (signed_in (empty_store\<lparr>st_script := [Some cancelled_error, Some (plain_error 403 ''Forbidden'')]\<rparr>)) =
   (Inl (Error access_denied),
    (signed_in (empty_store\<lparr>st_script := [Some cancelled_error, Some (plain_error 403 ''Forbidden'')]\<rparr>))
      \<lparr>store := empty_store,
       trace := map (probe_event (probe_filter ''u1'' ''A'' ''2024-01-15'' ''2024-01-16''))
                  [cancelled_error, plain_error 403 ''Forbidden''],
       sleeps := [200]\<rparr>)"
proof -
  let ?flt = "probe_filter ''u1'' ''A'' ''2024-01-15'' ''2024-01-16''"
  let ?env = "signed_in (empty_store\<lparr>st_script := [Some cancelled_error, Some cancelled_error, Some cancelled_error]\<rparr>) :: (pb_state, DailyLog) env"
  let ?env2 = "signed_in (empty_store\<lparr>st_script := [Some cancelled_error, Some (plain_error 403 ''Forbidden'')]\<rparr>) :: (pb_state, DailyLog) env"
  have auth: "ensureAuthenticated ?env = None" "ensureAuthenticated ?env2 = None"
    by (simp_all add: ensureAuthenticated_def signed_in_def)
  have flt: "?flt = probe_filter ''u1'' ''A'' (normalizeDate ''2024-01-15'') ''2024-01-16''"
    by (simp add: normalizeDate_def)
  have c3: "cancels daily_logs ?flt 3 (store ?env) =
      Some ([cancelled_error, cancelled_error, cancelled_error], empty_store)"
    by (simp add: numeral_3_eq_3 daily_logs_def ref_getList_def signed_in_def empty_store_def
          cancelled_error_autocancelled)
  have c1: "cancels daily_logs ?flt 1 (store ?env2) =
      Some ([cancelled_error], empty_store\<lparr>st_script := [Some (plain_error 403 ''Forbidden'')]\<rparr>)"
    by (simp add: daily_logs_def ref_getList_def signed_in_def empty_store_def
          cancelled_error_autocancelled)
  have e: "c_getList daily_logs 1 10 ?flt [] (empty_store\<lparr>st_script := [Some (plain_error 403 ''Forbidden'')]\<rparr>) =
      (Inl (plain_error 403 ''Forbidden''), empty_store)"
    by (simp add: daily_logs_def ref_getList_def empty_store_def)
  have s: "err_status (plain_error 403 ''Forbidden'') = 403"
    by (simp add: plain_error_def)
  from getDailyLogByTaskAndDate_failure_policy [OF auth example_next flt,
      of daily_logs "[cancelled_error, cancelled_error, cancelled_error]" empty_store 1
         "[cancelled_error]" "empty_store\<lparr>st_script := [Some (plain_error 403 ''Forbidden'')]\<rparr>"
         "plain_error 403 ''Forbidden''" empty_store]
    c3 c1 e s plain_error_not_autocancelled
  show ?thesis by (simp add: signed_in_def backoff_def)
qed

lemma find_SomeD: "find P xs = Some x \<Longrightarrow> P x \<and> x \<in> set xs"
  by (induction xs) (auto split: if_splits)

lemma loop_found:
  "getDailyLogByTaskAndDate_loop C flt nd a env = (Inr (Some l), env') \<Longrightarrow>
   normalizeDate (log_date l) = nd \<and> (honors C \<longrightarrow> sat flt l)"
proof (induction C flt nd a env rule: getDailyLogByTaskAndDate_loop.induct)
  case (1 C flt nd a env)
  show ?case
  proof (cases "a < 3")
    case False
    with "1.prems" show ?thesis
      by (subst (asm) getDailyLogByTaskAndDate_loop.simps) simp
  next
    case True
    obtain r env1 where c: "call (GetList ''daily_logs'' 1 10 flt []) Items
        (c_getList C 1 10 flt []) env = (r, env1)"
      by (cases "call (GetList ''daily_logs'' 1 10 flt []) Items (c_getList C 1 10 flt []) env")
    show ?thesis
    proof (cases r)
      case (Inr items)
      with "1.prems" True c have f: "find (\<lambda>item. normalizeDate (log_date item) = nd) items = Some l"
        by (subst (asm) getDailyLogByTaskAndDate_loop.simps) simp
      from c Inr obtain s' where "c_getList C 1 10 flt [] (store env) = (Inr items, s')"
        by (auto simp: call_def split: prod.splits)
      then have "honors C \<longrightarrow> list_all (sat flt) items"
        unfolding honors_def by blast
      with find_SomeD [OF f] show ?thesis by (auto simp: list_all_iff)
    next
      case (Inl e)
      show ?thesis
      proof (cases "autocancelled (err_message e) \<and> a < 2")
        case t: True
        with "1.prems" True c Inl have
          "getDailyLogByTaskAndDate_loop C flt nd (a + 1) (sleep (200 * (a + 1)) env1) =
             (Inr (Some l), env')"
          by (subst (asm) getDailyLogByTaskAndDate_loop.simps) simp
        with "1.IH" [OF True c [symmetric] Inl] t show ?thesis by simp
      next
        case False
        with "1.prems" True c Inl show ?thesis
          by (subst (asm) getDailyLogByTaskAndDate_loop.simps) (auto split: if_splits)
      qed
    qed
  qed
qed

lemma sat_probe_filter:
  "sat (probe_filter userId taskId nd next) l \<Longrightarrow> log_user l = userId \<and> log_task l = taskId"
  by (simp add: sat_def probe_filter_def)

text \<open>
  C5. Whatever page the store returns for the range query, a record returned by
  \<open>getDailyLogByTaskAndDate\<close> has the normalized date of the requested day: a
  record that the range matched but whose normalized date differs is never
  returned. When the store honours its filters, the record also has the requested
  task and the user of the user filter.
\<close>

theorem getDailyLogByTaskAndDate_exact_match:
  assumes "getDailyLogByTaskAndDate C P userId taskId date env = (Inr (Some r), env')"
  shows "normalizeDate (log_date r) = normalizeDate date \<and>
         (honors C \<longrightarrow> log_task r = taskId \<and> log_user r = userId)"
proof -
  from assms obtain nxt where
    "getDailyLogByTaskAndDate_loop C (probe_filter userId taskId (normalizeDate date) nxt)
       (normalizeDate date) 0 env = (Inr (Some r), env')"
    by (auto simp: getDailyLogByTaskAndDate_def split: option.splits)
  from loop_found [OF this] sat_probe_filter show ?thesis by blast
qed

lemma daily_logs_honors: "honors daily_logs"
proof -
  have "list_all (sat flt) (take n (drop m (if b then rev (sort_key log_date (filter (sat flt) xs))
          else filter (sat flt) xs)))" for flt n m b and xs :: "DailyLog list"
    by (auto simp: list_all_iff dest!: in_set_takeD in_set_dropD)
  then show ?thesis
    by (auto simp: honors_def daily_logs_def ref_getList_def Let_def
          split: prod.splits option.splits if_splits)
qed


theorem getDailyLogByTaskAndDate_exact_match_witness:
  "fst (getDailyLogByTaskAndDate daily_logs example_platform ''u1'' ''A'' ''2024-01-15''
     (signed_in (empty_store\<lparr>st_logs :=
        [(example_log ''r0'' ''A'')\<lparr>log_date := ''2024-01-15 23:30''\<rparr>, example_log ''r1'' ''A'']\<rparr>))) =
     Inr (Some (example_log ''r1'' ''A'')) \<and>
   normalizeDate (log_date (example_log ''r1'' ''A'')) = normalizeDate ''2024-01-15'' \<and>
   log_task (example_log ''r1'' ''A'') = ''A'' \<and> log_user (example_log ''r1'' ''A'') = ''u1''"
proof -
  let ?env = "signed_in (empty_store\<lparr>st_logs :=
        [(example_log ''r0'' ''A'')\<lparr>log_date := ''2024-01-15 23:30''\<rparr>, example_log ''r1'' ''A'']\<rparr>)
        :: (pb_state, DailyLog) env"
  have f: "fst (getDailyLogByTaskAndDate daily_logs example_platform ''u1'' ''A'' ''2024-01-15'' ?env) =
      Inr (Some (example_log ''r1'' ''A''))"
    by (simp add: getDailyLogByTaskAndDate_def ensureAuthenticated_def signed_in_def
          nextDateStr_def example_platform_def normalizeDate_def probe_filter_def
          getDailyLogByTaskAndDate_loop.simps call_def daily_logs_def ref_getList_def
          empty_store_def known_fields_def sat_def example_log_def)
  then obtain env' where run:
    "getDailyLogByTaskAndDate daily_logs example_platform ''u1'' ''A'' ''2024-01-15'' ?env =
       (Inr (Some (example_log ''r1'' ''A'')), env')"
    by (metis prod.collapse)
  from getDailyLogByTaskAndDate_exact_match [OF run] daily_logs_honors f
  show ?thesis by simp
qed

section \<open>What the probes add to the trace\<close>

lemma extends_refl: "extends env env []"
  by (simp add: extends_def)

lemma extends_trans:
  "extends env env1 evs1 \<Longrightarrow> extends env1 env2 evs2 \<Longrightarrow> extends env env2 (evs1 @ evs2)"
  by (auto simp: extends_def)

lemma extends_sleep: "extends env env1 evs \<Longrightarrow> extends env (sleep ms env1) evs"
  by (auto simp: extends_def sleep_def)


lemma console_sleep [simp]: "console (sleep ms env) = console env"
  by (simp add: sleep_def)

lemma call_extends:
  "call rq wrap f env = (r, env1) \<Longrightarrow>
   extends env env1 [(rq, map_sum id wrap r)] \<and> console env1 = console env"
  by (auto simp: call_def extends_def split: prod.splits)

lemma retrieved_append [simp]: "retrieved (xs @ ys) = retrieved xs @ retrieved ys"
  by (simp add: retrieved_def)

lemma retrieved_Cons [simp]: "retrieved (ev # evs) = reply_items ev @ retrieved evs"
  by (simp add: retrieved_def)

lemma retrieved_Nil [simp]: "retrieved [] = []"
  by (simp add: retrieved_def)

lemma find_NoneD: "find P xs = None \<Longrightarrow> \<forall>x \<in> set xs. \<not> P x"
  by (induction xs) (auto split: if_splits)

lemma probe_obs_empty:
  "(\<forall>l. res \<noteq> Inr (Some l)) \<Longrightarrow> probe_obs hon flt nd n env env res []"
  by (simp add: probe_obs_def extends_refl)

lemma probe_obs_mono:
  "probe_obs hon flt nd n env env' res evs \<Longrightarrow> n \<le> m \<Longrightarrow> probe_obs hon flt nd m env env' res evs"
  by (simp add: probe_obs_def)

lemma probe_obs_from_sleep:
  "probe_obs hon flt nd n (sleep ms env1) env' res evs \<Longrightarrow> probe_obs hon flt nd n env1 env' res evs"
  by (auto simp: probe_obs_def extends_def sleep_def)

text \<open>A run that found nothing, followed by another run.\<close>

lemma probe_obs_seq:
  assumes one: "probe_obs hon flt nd n1 env env1 r evs1" and none: "\<forall>l. r \<noteq> Inr (Some l)"
    and two: "probe_obs hon flt nd n2 env1 env' res evs2"
  shows "probe_obs hon flt nd (n1 + n2) env env' res (evs1 @ evs2)"
  unfolding probe_obs_def
proof (intro conjI)
  show "extends env env' (evs1 @ evs2)"
    using one two by (auto simp: probe_obs_def intro: extends_trans)
  show "console env' = console env" using one two by (simp add: probe_obs_def)
  show "list_all is_query (evs1 @ evs2)" using one two by (simp add: probe_obs_def)
  from one two have "length evs1 \<le> n1" "length evs2 \<le> n2" by (simp_all add: probe_obs_def)
  then show "length (evs1 @ evs2) \<le> n1 + n2" by simp
  show "\<forall>l. res = Inr (Some l) \<longrightarrow>
      list_ex (probe_hit flt nd) (evs1 @ evs2) \<and> l \<in> set (retrieved (evs1 @ evs2)) \<and>
      normalizeDate (log_date l) = nd \<and> (hon \<longrightarrow> sat flt l)"
    using two by (simp add: probe_obs_def)
  from one none have "\<forall>l \<in> set (retrieved evs1). normalizeDate (log_date l) \<noteq> nd"
    by (simp add: probe_obs_def)
  then show "(\<forall>l. res \<noteq> Inr (Some l)) \<longrightarrow>
      (\<forall>l \<in> set (retrieved (evs1 @ evs2)). normalizeDate (log_date l) \<noteq> nd)"
    using two by (auto simp: probe_obs_def)
qed

lemma loop_events:
  "getDailyLogByTaskAndDate_loop C flt nd a env = (res, env') \<Longrightarrow>
   \<exists>evs. probe_obs (honors C) flt nd (3 - a) env env' res evs"
proof (induction C flt nd a env rule: getDailyLogByTaskAndDate_loop.induct)
  case (1 C flt nd a env)
  show ?case
  proof (cases "a < 3")
    case False
    with "1.prems" have "res = Inr None" "env' = env"
      by (subst (asm) getDailyLogByTaskAndDate_loop.simps, simp)+
    then have "probe_obs (honors C) flt nd (3 - a) env env' res []"
      by (simp add: probe_obs_empty)
    then show ?thesis ..
  next
    case True
    let ?rq = "GetList ''daily_logs'' 1 10 flt []"
    obtain r env1 where c: "call ?rq Items (c_getList C 1 10 flt []) env = (r, env1)"
      by (cases "call ?rq Items (c_getList C 1 10 flt []) env")
    note ce = call_extends [OF c]
    have one: "(\<forall>l. res' \<noteq> Inr (Some l)) \<Longrightarrow> r = Inl e \<Longrightarrow>
        probe_obs (honors C) flt nd 1 env env1 res' [(?rq, Inl e)]" for res' e
      using ce by (simp add: probe_obs_def)
    show ?thesis
    proof (cases r)
      case (Inr items)
      with "1.prems" True c have
        res: "res = Inr (find (\<lambda>item. normalizeDate (log_date item) = nd) items)" and
        env': "env' = env1"
        by (subst (asm) getDailyLogByTaskAndDate_loop.simps, simp)+
      from c Inr obtain s' where "c_getList C 1 10 flt [] (store env) = (Inr items, s')"
        by (auto simp: call_def split: prod.splits)
      then have hon: "honors C \<longrightarrow> list_all (sat flt) items"
        unfolding honors_def by blast
      have "probe_obs (honors C) flt nd (3 - a) env env' res [(?rq, Inr (Items items))]"
        using ce True Inr hon
        by (auto simp: probe_obs_def res env' list_ex_iff list_all_iff dest: find_SomeD find_NoneD)
      then show ?thesis ..
    next
      case (Inl e)
      show ?thesis
      proof (cases "autocancelled (err_message e) \<and> a < 2")
        case False
        with "1.prems" True c Inl have "res = Inl (fetch_error ''daily_logs'' ''daily log'' e) \<or> res = Inr None"
          "env' = env1"
          by (subst (asm) getDailyLogByTaskAndDate_loop.simps, auto split: if_splits)+
        then have "probe_obs (honors C) flt nd 1 env env' res [(?rq, Inl e)]"
          using one [OF _ Inl, of res] by auto
        then have "probe_obs (honors C) flt nd (3 - a) env env' res [(?rq, Inl e)]"
          using True by (auto intro: probe_obs_mono)
        then show ?thesis ..
      next
        case t: True
        with "1.prems" True c Inl have rec:
          "getDailyLogByTaskAndDate_loop C flt nd (a + 1) (sleep (200 * (a + 1)) env1) =
             (res, env')"
          by (subst (asm) getDailyLogByTaskAndDate_loop.simps) simp
        from "1.IH" [OF True c [symmetric] Inl _ _ rec] t obtain evs where
          "probe_obs (honors C) flt nd (3 - (a + 1)) (sleep (200 * (a + 1)) env1) env' res evs"
          by blast
        then have ih: "probe_obs (honors C) flt nd (3 - (a + 1)) env1 env' res evs"
          by (rule probe_obs_from_sleep)
        have "probe_obs (honors C) flt nd 1 env env1 (Inl (StoreError e)) [(?rq, Inl e)]"
          by (rule one) (simp_all add: Inl)
        from probe_obs_seq [OF this _ ih] have
          "probe_obs (honors C) flt nd (1 + (3 - (a + 1))) env env' res ([(?rq, Inl e)] @ evs)"
          by simp
        then have "probe_obs (honors C) flt nd (3 - a) env env' res ([(?rq, Inl e)] @ evs)"
          using t by (auto intro: probe_obs_mono)
        then show ?thesis ..
      qed
    qed
  qed
qed

lemma probe_events:
  "getDailyLogByTaskAndDate C P userId taskId date env = (res, env') \<Longrightarrow>
   \<exists>evs. probe_obs (honors C) (probe_query_filter P userId taskId date) (normalizeDate date) 3
            env env' res evs"
proof -
  assume run: "getDailyLogByTaskAndDate C P userId taskId date env = (res, env')"
  show ?thesis
  proof (cases "ensureAuthenticated env = None \<and> nextDateStr P (normalizeDate date) \<noteq> None")
    case False
    with run have "env' = env" "\<forall>l. res \<noteq> Inr (Some l)"
      by (auto simp: getDailyLogByTaskAndDate_def split: option.splits)
    then show ?thesis using probe_obs_empty by blast
  next
    case True
    then obtain nxt where n: "nextDateStr P (normalizeDate date) = Some nxt" by blast
    with run True have
      "getDailyLogByTaskAndDate_loop C (probe_query_filter P userId taskId date)
         (normalizeDate date) 0 env = (res, env')"
      by (simp add: getDailyLogByTaskAndDate_def probe_query_filter_def)
    from loop_events [OF this] show ?thesis by simp
  qed
qed

declare create_check_loop.simps [simp del]
declare ensure_check_loop.simps [simp del]


section \<open>Properties of the Idempotent Creator\<close>



lemma sleeps_sleep: "sleeps (sleep ms env) = sleeps env @ [ms]"
  by (simp add: sleep_def)







lemma example_day [simp]: "normalizeDate ''2024-01-15'' = ''2024-01-15''"
  by (simp add: normalizeDate_def)

lemma example_next_day: "nextDateStr example_platform ''2024-01-15'' = Some ''2024-01-16''"
  by (simp add: nextDateStr_def example_platform_def)

lemma example_iso:
  "toISOString example_platform (''2024-01-15'' @ ''T00:00:00.000Z'') =
     Some ''2024-01-15T00:00:00.000Z''"
  by (simp add: example_platform_def)







section \<open>Properties of the Batch Reconciler\<close>

lemma ensure_check_loop_events:
  "ensure_check_loop C P userId taskId nd a env = (res, env') \<Longrightarrow>
   \<exists>evs. probe_obs (honors C) (probe_query_filter P userId taskId nd) (normalizeDate nd)
            (3 * (2 - a)) env env' (Inr res) evs"
proof (induction C P userId taskId nd a env rule: ensure_check_loop.induct)
  case (1 C P userId taskId nd a env)
  let ?flt = "probe_query_filter P userId taskId nd"
  show ?case
  proof (cases "a < 2")
    case False
    with "1.prems" have "res = None" "env' = env"
      by (subst (asm) ensure_check_loop.simps, simp)+
    then have "probe_obs (honors C) ?flt (normalizeDate nd) (3 * (2 - a)) env env' (Inr res) []"
      by (simp add: probe_obs_empty)
    then show ?thesis ..
  next
    case True
    obtain r env1 where p: "getDailyLogByTaskAndDate C P userId taskId nd env = (r, env1)"
      by (cases "getDailyLogByTaskAndDate C P userId taskId nd env")
    from probe_events [OF p] obtain evs1 where
      one: "probe_obs (honors C) ?flt (normalizeDate nd) 3 env env1 r evs1" ..
    show ?thesis
    proof (cases "\<exists>l. r = Inr (Some l)")
      case True
      then obtain l where l: "r = Inr (Some l)" ..
      with "1.prems" \<open>a < 2\<close> p have "res = Some l" "env' = env1"
        by (subst (asm) ensure_check_loop.simps, simp)+
      with one l have "probe_obs (honors C) ?flt (normalizeDate nd) 3 env env' (Inr res) evs1"
        by simp
      then have "probe_obs (honors C) ?flt (normalizeDate nd) (3 * (2 - a)) env env' (Inr res) evs1"
        using \<open>a < 2\<close> by (auto intro: probe_obs_mono)
      then show ?thesis ..
    next
      case False
      then have none: "\<forall>l. r \<noteq> Inr (Some l)" by simp
      have "(res = None \<and> env' = env1) \<or>
          (\<exists>env1'. (env1' = env1 \<or> (\<exists>ms. env1' = sleep ms env1)) \<and>
          (\<exists>evs. probe_obs (honors C) ?flt (normalizeDate nd) (3 * (2 - (a + 1))) env1' env'
                    (Inr res) evs))"
      proof (cases r)
        case (Inr found)
        with none have f: "found = None" by (cases found) auto
        with "1.prems" \<open>a < 2\<close> p Inr have rec:
          "ensure_check_loop C P userId taskId nd (a + 1) env1 = (res, env')"
          by (subst (asm) ensure_check_loop.simps) simp
        from "1.IH"(2) [OF \<open>a < 2\<close> p [symmetric] Inr f rec] show ?thesis by blast
      next
        case (Inl err)
        show ?thesis
        proof (cases "autocancelled (thrown_message err) \<and> a < 1")
          case True
          with "1.prems" \<open>a < 2\<close> p Inl have rec:
            "ensure_check_loop C P userId taskId nd (a + 1) (sleep 300 env1) = (res, env')"
            by (subst (asm) ensure_check_loop.simps) simp
          from "1.IH"(1) [OF \<open>a < 2\<close> p [symmetric] Inl True rec] show ?thesis by blast
        next
          case False
          with "1.prems" \<open>a < 2\<close> p Inl have "res = None \<and> env' = env1"
            by (subst (asm) ensure_check_loop.simps) auto
          then show ?thesis ..
        qed
      qed
      then show ?thesis
      proof
        assume "res = None \<and> env' = env1"
        with one none have
          "probe_obs (honors C) ?flt (normalizeDate nd) 3 env env' (Inr res) evs1"
          by (simp add: probe_obs_def)
        then have "probe_obs (honors C) ?flt (normalizeDate nd) (3 * (2 - a)) env env' (Inr res) evs1"
          using \<open>a < 2\<close> by (auto intro: probe_obs_mono)
        then show ?thesis ..
      next
        assume "\<exists>env1'. (env1' = env1 \<or> (\<exists>ms. env1' = sleep ms env1)) \<and>
          (\<exists>evs. probe_obs (honors C) ?flt (normalizeDate nd) (3 * (2 - (a + 1))) env1' env'
                    (Inr res) evs)"
        then obtain env1' evs2 where
          e: "env1' = env1 \<or> (\<exists>ms. env1' = sleep ms env1)" and
          two': "probe_obs (honors C) ?flt (normalizeDate nd) (3 * (2 - (a + 1))) env1' env' (Inr res) evs2"
          by blast
        from e two' have two:
          "probe_obs (honors C) ?flt (normalizeDate nd) (3 * (2 - (a + 1))) env1 env' (Inr res) evs2"
          by (auto dest: probe_obs_from_sleep)
        from probe_obs_seq [OF one none two] have
          "probe_obs (honors C) ?flt (normalizeDate nd) (3 + 3 * (2 - (a + 1))) env env' (Inr res)
             (evs1 @ evs2)" .
        then have "probe_obs (honors C) ?flt (normalizeDate nd) (3 * (2 - a)) env env' (Inr res)
             (evs1 @ evs2)"
          using \<open>a < 2\<close> by (auto intro: probe_obs_mono)
        then show ?thesis ..
      qed
    qed
  qed
qed

end
